theory Spec2Isabelle
  imports Main "HOL-Library.Multiset"
begin

section \<open>Values read from the provider\<close>

text \<open>
  The quiz page (\<^verbatim>\<open>src/2.0/1.js\<close>) receives its questions as JSON. A parsed JSON
  document is a tree of the six JSON kinds; an object is the list of its own
  properties, looked up with \<open>map_of\<close>. A number is kept as an integer: the program
  never computes with one, it only tests a number for being zero (truthiness) and
  for being positive (\<^verbatim>\<open>length > 0\<close>). Reading a property that is absent yields
  JavaScript's \<^verbatim>\<open>undefined\<close>, which is \<open>None\<close> of \<open>json option\<close>.
\<close>

datatype json =
    JNull
  | JBool bool
  | JNum int
  | JStr string
  | JArr "json list"
  | JObj "(string \<times> json) list"

text \<open>
  What a \<^verbatim>\<open>throw\<close> inside the \<^verbatim>\<open>try\<close> block of \<^verbatim>\<open>generateQuestionsWithAI\<close> can carry:
  the \<^verbatim>\<open>Error\<close> built at line 166 from the status and the body of the response, the
  \<^verbatim>\<open>SyntaxError\<close> of a failed parse, the \<^verbatim>\<open>TypeError\<close> of a property read on
  \<^verbatim>\<open>null\<close> or \<^verbatim>\<open>undefined\<close>, and the rejection of \<^verbatim>\<open>fetch\<close> itself with its message.
\<close>

datatype js_error =
    HttpError nat string
  | SyntaxError
  | TypeError
  | FetchRejected string

definition seq :: "'e + 'a \<Rightarrow> ('a \<Rightarrow> 'e + 'b) \<Rightarrow> 'e + 'b" where
  "seq m f = (case m of Inl e \<Rightarrow> Inl e | Inr a \<Rightarrow> f a)"

text \<open>
  Two operations of the JavaScript engine are taken as parameters, so that every
  theorem below holds whatever they compute: \<^verbatim>\<open>JSON.parse\<close> applied to a value (a
  string is parsed, anything else is first converted to a string), and the
  comparison \<^verbatim>\<open>v > 0\<close> for a string, array or object \<open>v\<close>, which converts \<open>v\<close> to a number
  first. Both may throw.
\<close>

record js_engine =
  JSON_parse :: "json option \<Rightarrow> js_error + json"
  coerce_gt0 :: "json \<Rightarrow> js_error + bool"

fun get_prop :: "json option \<Rightarrow> string \<Rightarrow> js_error + json option" where
  "get_prop None k = Inl TypeError"
| "get_prop (Some JNull) k = Inl TypeError"
| "get_prop (Some (JObj kvs)) k = Inr (map_of kvs k)"
| "get_prop (Some (JArr xs)) k =
     Inr (if k = ''length'' then Some (JNum (int (length xs))) else None)"
| "get_prop (Some (JStr s)) k =
     Inr (if k = ''length'' then Some (JNum (int (length s))) else None)"
| "get_prop (Some (JBool b)) k = Inr None"
| "get_prop (Some (JNum n)) k = Inr None"

text \<open>The read \<^verbatim>\<open>v[0]\<close>.\<close>

fun get_index0 :: "json option \<Rightarrow> js_error + json option" where
  "get_index0 None = Inl TypeError"
| "get_index0 (Some JNull) = Inl TypeError"
| "get_index0 (Some (JArr xs)) = Inr (case xs of [] \<Rightarrow> None | x # _ \<Rightarrow> Some x)"
| "get_index0 (Some (JStr s)) = Inr (case s of [] \<Rightarrow> None | c # _ \<Rightarrow> Some (JStr [c]))"
| "get_index0 (Some (JObj kvs)) = Inr (map_of kvs ''0'')"
| "get_index0 (Some (JBool b)) = Inr None"
| "get_index0 (Some (JNum n)) = Inr None"

fun truthy :: "json option \<Rightarrow> bool" where
  "truthy None = False"
| "truthy (Some JNull) = False"
| "truthy (Some (JBool b)) = b"
| "truthy (Some (JNum n)) = (n \<noteq> 0)"
| "truthy (Some (JStr s)) = (s \<noteq> [])"
| "truthy (Some (JArr xs)) = True"
| "truthy (Some (JObj kvs)) = True"

fun gt_zero :: "js_engine \<Rightarrow> json option \<Rightarrow> js_error + bool" where
  "gt_zero E None = Inr False"
| "gt_zero E (Some JNull) = Inr False"
| "gt_zero E (Some (JBool b)) = Inr b"
| "gt_zero E (Some (JNum n)) = Inr (0 < n)"
| "gt_zero E (Some v) = coerce_gt0 E v"

fun is_string :: "json option \<Rightarrow> bool" where
  "is_string (Some (JStr s)) = True"
| "is_string _ = False"

fun isArray :: "json option \<Rightarrow> bool" where
  "isArray (Some (JArr xs)) = True"
| "isArray _ = False"

fun elements :: "json option \<Rightarrow> json list" where
  "elements (Some (JArr xs)) = xs"
| "elements _ = []"

text \<open>
  \<^verbatim>\<open>Array.prototype.includes\<close> compares with SameValueZero: two primitives of the
  same kind and value are equal, an array or object is equal only to itself, and the
  nodes of a parsed document are all distinct.
\<close>

fun same_value_zero :: "json \<Rightarrow> json option \<Rightarrow> bool" where
  "same_value_zero JNull (Some JNull) = True"
| "same_value_zero (JBool a) (Some (JBool b)) = (a = b)"
| "same_value_zero (JNum a) (Some (JNum b)) = (a = b)"
| "same_value_zero (JStr a) (Some (JStr b)) = (a = b)"
| "same_value_zero _ _ = False"

definition array_includes :: "json list \<Rightarrow> json option \<Rightarrow> bool" where
  "array_includes xs v = list_ex (\<lambda>x. same_value_zero x v) xs"

section \<open>The question provider\<close>

text \<open>
  Lines 173--175: the condition under which the response is read further. Each
  \<^verbatim>\<open>&&\<close> stops at the first falsy operand; a property read on \<^verbatim>\<open>null\<close> or
  \<^verbatim>\<open>undefined\<close> throws.
\<close>

definition has_parts :: "js_engine \<Rightarrow> json \<Rightarrow> js_error + bool" where
  "has_parts E result =
     seq (get_prop (Some result) ''candidates'') (\<lambda>candidates.
     if \<not> truthy candidates then Inr False else
     seq (get_prop candidates ''length'') (\<lambda>n.
     seq (gt_zero E n) (\<lambda>some.
     if \<not> some then Inr False else
     seq (get_index0 candidates) (\<lambda>c0.
     seq (get_prop c0 ''content'') (\<lambda>content.
     if \<not> truthy content then Inr False else
     seq (get_prop content ''parts'') (\<lambda>parts.
     if \<not> truthy parts then Inr False else
     seq (get_prop parts ''length'') (\<lambda>m.
     gt_zero E m)))))))"

text \<open>Line 177: \<^verbatim>\<open>result.candidates[0].content.parts[0].text\<close>.\<close>

definition parts_text :: "json \<Rightarrow> js_error + json option" where
  "parts_text result =
     seq (get_prop (Some result) ''candidates'') (\<lambda>candidates.
     seq (get_index0 candidates) (\<lambda>c0.
     seq (get_prop c0 ''content'') (\<lambda>content.
     seq (get_prop content ''parts'') (\<lambda>parts.
     seq (get_index0 parts) (\<lambda>p0.
     get_prop p0 ''text'')))))"

text \<open>Lines 183--185: the callback given to \<^verbatim>\<open>parsedQuestions.every\<close>.\<close>

definition valid_question :: "json \<Rightarrow> js_error + bool" where
  "valid_question q =
     seq (get_prop (Some q) ''question'') (\<lambda>qu.
     if \<not> is_string qu then Inr False else
     seq (get_prop (Some q) ''options'') (\<lambda>opts.
     if \<not> isArray opts then Inr False else
     seq (get_prop opts ''length'') (\<lambda>n.
     if n \<noteq> Some (JNum 4) then Inr False else
     if \<not> list_all (\<lambda>opt. is_string (Some opt)) (elements opts) then Inr False else
     seq (get_prop (Some q) ''answer'') (\<lambda>ans.
     if \<not> is_string ans then Inr False else
     Inr (array_includes (elements opts) ans)))))"

text \<open>\<^verbatim>\<open>every\<close> calls the callback from the left and stops at the first \<^verbatim>\<open>false\<close>.\<close>

fun every_valid :: "json list \<Rightarrow> js_error + bool" where
  "every_valid [] = Inr True"
| "every_valid (q # qs) =
     seq (valid_question q) (\<lambda>b. if b then every_valid qs else Inr False)"

text \<open>Line 182: \<^verbatim>\<open>Array.isArray(parsedQuestions) && parsedQuestions.every(...)\<close>.\<close>

definition valid_questions :: "json \<Rightarrow> js_error + bool" where
  "valid_questions parsedQuestions =
     (if \<not> isArray (Some parsedQuestions) then Inr False
      else every_valid (elements (Some parsedQuestions)))"

text \<open>
  A question as the rest of the page uses it. The program returns the parsed objects
  themselves; after validation it reads three properties of each and nothing else, and
  the record holds these three.
\<close>

record quiz_question =
  question :: string
  options :: "string list"
  answer :: string

fun string_of :: "json option \<Rightarrow> string" where
  "string_of (Some (JStr s)) = s"
| "string_of _ = []"

fun own_prop :: "json \<Rightarrow> string \<Rightarrow> json option" where
  "own_prop (JObj kvs) k = map_of kvs k"
| "own_prop _ k = None"

definition as_question :: "json \<Rightarrow> quiz_question" where
  "as_question q =
     \<lparr>question = string_of (own_prop q ''question''),
      options = map (\<lambda>opt. string_of (Some opt)) (elements (own_prop q ''options'')),
      answer = string_of (own_prop q ''answer'')\<rparr>"

section \<open>The page\<close>

text \<open>
  The three \<^verbatim>\<open>alert\<close> calls of \<^verbatim>\<open>generateQuestionsWithAI\<close>: line 191 (the parsed
  questions have an unexpected format), line 197 (the response has an unexpected
  structure) and line 203 (the \<^verbatim>\<open>catch\<close> block, with the error caught).
\<close>

datatype alert =
    FailedToParse
  | NoValidQuestions
  | FailedToGenerate js_error

text \<open>
  An option button of \<^verbatim>\<open>loadQuestion\<close>. Its click listener is the closure of line 258;
  \<open>listener\<close> holds the two values the closure has captured, \<^verbatim>\<open>option\<close> and
  \<^verbatim>\<open>question.answer\<close>.
\<close>

record option_button =
  textContent :: string
  disabled :: bool
  classList :: "string list"
  listener :: "string \<times> string"

text \<open>
  The global variables of lines 29--32 and the part of the document the handlers
  touch. An element with the class \<^verbatim>\<open>hidden\<close> has its \<open>_hidden\<close> field true. \<open>alerts\<close> are
  the notices shown so far, \<open>fetched\<close> the languages of the requests sent so far, each
  in order.
\<close>

record page =
  currentQuestions :: "quiz_question list"
  currentQuestionIndex :: nat
  score :: nat
  answeredThisQuestion :: bool
  languageSelect :: string
  languageSelection_hidden :: bool
  loadingIndicator_hidden :: bool
  quizContainer_hidden :: bool
  scoreCard_hidden :: bool
  nextButton_hidden :: bool
  questionText :: string
  optionsContainer :: "option_button list"
  finalScoreSpan :: nat
  totalQuestionsSpan :: nat
  alerts :: "alert list"
  fetched :: "string list"

text \<open>What \<^verbatim>\<open>await fetch(...)\<close> gives: a rejection, or a response.\<close>

record response =
  ok :: bool
  status :: nat
  body :: string

datatype fetch_outcome =
    Rejected string
  | Responded response

definition show_alert :: "alert \<Rightarrow> page \<Rightarrow> page" where
  "show_alert a s = s\<lparr>alerts := alerts s @ [a]\<rparr>"

text \<open>
  Lines 157--178, the first half of the \<^verbatim>\<open>try\<close> block: from the outcome of \<^verbatim>\<open>fetch\<close>
  to the value of \<^verbatim>\<open>parsedQuestions\<close>. The result is \<open>Inl\<close> of what is thrown, \<open>Inr None\<close>
  when the condition of line 173 is false, and \<open>Inr (Some v)\<close> when line 178 has
  parsed \<open>v\<close>. \<^verbatim>\<open>response.text()\<close> and \<^verbatim>\<open>response.json()\<close> read the body, and
  \<^verbatim>\<open>response.json()\<close> parses it as \<^verbatim>\<open>JSON.parse\<close> parses a string; a body that cannot be
  read rejects like \<^verbatim>\<open>fetch\<close> and is the outcome \<open>Rejected\<close>.
\<close>

definition parsedQuestions_of :: "js_engine \<Rightarrow> fetch_outcome \<Rightarrow> js_error + json option" where
  "parsedQuestions_of E out =
     (case out of
        Rejected msg \<Rightarrow> Inl (FetchRejected msg)
      | Responded response \<Rightarrow>
          if \<not> ok response then Inl (HttpError (status response) (body response))
          else
            seq (JSON_parse E (Some (JStr (body response)))) (\<lambda>result.
            seq (has_parts E result) (\<lambda>present.
            if present then
              seq (parts_text result) (\<lambda>jsonString.
              seq (JSON_parse E jsonString) (\<lambda>parsedQuestions.
              Inr (Some parsedQuestions)))
            else Inr None)))"

text \<open>
  Lines 155--199, the whole \<^verbatim>\<open>try\<close> block: the value returned and the page, with the
  notice of line 191 or of line 197 when one of them is reached.
\<close>

definition try_block ::
  "js_engine \<Rightarrow> fetch_outcome \<Rightarrow> page \<Rightarrow> js_error + page \<times> quiz_question list" where
  "try_block E out s =
     seq (parsedQuestions_of E out) (\<lambda>reached.
     case reached of
       Some parsedQuestions \<Rightarrow>
         seq (valid_questions parsedQuestions) (\<lambda>valid.
         if valid
         then Inr (s, map as_question (elements (Some parsedQuestions)))
         else Inr (show_alert FailedToParse s, []))
     | None \<Rightarrow> Inr (show_alert NoValidQuestions s, []))"

text \<open>
  \<^verbatim>\<open>generateQuestionsWithAI(language)\<close>, lines 114--209, in one step from the call to
  the return: the request is sent, its outcome \<open>out\<close> arrives, and the \<^verbatim>\<open>catch\<close> and
  \<^verbatim>\<open>finally\<close> blocks run.
\<close>

definition generateQuestionsWithAI ::
  "js_engine \<Rightarrow> fetch_outcome \<Rightarrow> string \<Rightarrow> page \<Rightarrow> page \<times> quiz_question list" where
  "generateQuestionsWithAI E out language s =
     (let s1 = s\<lparr>loadingIndicator_hidden := False, languageSelection_hidden := True\<rparr>;
          s2 = s1\<lparr>fetched := fetched s1 @ [language]\<rparr>;
          (s3, returned) =
            (case try_block E out s2 of
               Inr r \<Rightarrow> r
             | Inl error \<Rightarrow> (show_alert (FailedToGenerate error) s2, []))
      in (s3\<lparr>loadingIndicator_hidden := True\<rparr>, returned))"

text \<open>
  Line 250: \<^verbatim>\<open>[...question.options].sort(() => Math.random() - 0.5)\<close>. The comparator
  ignores its arguments and answers at random, so \<^verbatim>\<open>sort\<close>, which moves the elements
  of the copy and neither adds nor drops one, leaves them in an order that is the
  engine's choice. \<open>rnd\<close> is that choice, one number for each position filled: entry
  \<open>k\<close> takes the element at \<open>k mod n\<close> of the \<open>n\<close> elements not yet placed, and once \<open>rnd\<close>
  is used up the rest keep their order. Every order of the elements is the result of
  some \<open>rnd\<close>.
\<close>

function sort_random :: "nat list \<Rightarrow> 'a list \<Rightarrow> 'a list" where
  "sort_random rnd [] = []"
| "sort_random [] (x # xs) = x # xs"
| "sort_random (k # rnd) (x # xs) =
     (let i = k mod length (x # xs)
      in (x # xs) ! i # sort_random rnd (take i (x # xs) @ drop (Suc i) (x # xs)))"
  by pat_completeness auto
termination
  by (relation "measure (\<lambda>(rnd, xs). length xs)") auto

definition new_button :: "quiz_question \<Rightarrow> string \<Rightarrow> option_button" where
  "new_button q option =
     \<lparr>textContent = option, disabled = False, classList = [''option-button''],
      listener = (option, answer q)\<rparr>"

text \<open>
  \<^verbatim>\<open>loadQuestion()\<close>, lines 241--261. Reading \<^verbatim>\<open>question.question\<close> of an index
  outside the array throws.
\<close>

definition loadQuestion :: "nat list \<Rightarrow> page \<Rightarrow> js_error + page" where
  "loadQuestion rnd s =
     (let s1 = s\<lparr>answeredThisQuestion := False\<rparr> in
      if currentQuestionIndex s1 < length (currentQuestions s1) then
        let q = currentQuestions s1 ! currentQuestionIndex s1;
            s2 = s1\<lparr>questionText := question q, optionsContainer := [],
                    nextButton_hidden := True\<rparr>;
            shuffledOptions = sort_random rnd (options q)
        in Inr (s2\<lparr>optionsContainer :=
                       optionsContainer s2 @ map (new_button q) shuffledOptions\<rparr>)
      else Inl TypeError)"

definition classList_add :: "string \<Rightarrow> option_button \<Rightarrow> option_button" where
  "classList_add c b =
     (if c \<in> set (classList b) then b else b\<lparr>classList := classList b @ [c]\<rparr>)"

text \<open>
  \<^verbatim>\<open>selectOption(selectedButton, selectedOption, correctAnswer)\<close>, lines 269--293;
  \<open>i\<close> is the position of \<^verbatim>\<open>selectedButton\<close> in the options container.
\<close>

definition selectOption :: "nat \<Rightarrow> string \<Rightarrow> string \<Rightarrow> page \<Rightarrow> page" where
  "selectOption i selectedOption correctAnswer s =
     (if answeredThisQuestion s then s
      else
        let s1 = s\<lparr>answeredThisQuestion := True\<rparr>;
            s2 = s1\<lparr>optionsContainer :=
                      map (\<lambda>button. button\<lparr>disabled := True\<rparr>) (optionsContainer s1)\<rparr>;
            s3 = (if selectedOption = correctAnswer
                  then s2\<lparr>optionsContainer :=
                             (optionsContainer s2)
                               [i := classList_add ''correct'' (optionsContainer s2 ! i)],
                          score := score s2 + 1\<rparr>
                  else
                    let s' = s2\<lparr>optionsContainer :=
                                  (optionsContainer s2)
                                    [i := classList_add ''incorrect'' (optionsContainer s2 ! i)]\<rparr>
                    in s'\<lparr>optionsContainer :=
                             map (\<lambda>button. if textContent button = correctAnswer
                                            then classList_add ''correct'' button else button)
                                 (optionsContainer s')\<rparr>)
        in s3\<lparr>nextButton_hidden := False\<rparr>)"

text \<open>
  A click on the option button at position \<open>i\<close> runs its listener; a disabled button
  receives no click.
\<close>

definition click_option :: "nat \<Rightarrow> page \<Rightarrow> page" where
  "click_option i s =
     (if i < length (optionsContainer s) \<and> \<not> disabled (optionsContainer s ! i)
      then selectOption i (fst (listener (optionsContainer s ! i)))
                          (snd (listener (optionsContainer s ! i))) s
      else s)"

definition showResult :: "page \<Rightarrow> page" where
  "showResult s =
     s\<lparr>quizContainer_hidden := True, scoreCard_hidden := False,
       finalScoreSpan := score s, totalQuestionsSpan := length (currentQuestions s)\<rparr>"

definition loadNextQuestion :: "nat list \<Rightarrow> page \<Rightarrow> js_error + page" where
  "loadNextQuestion rnd s =
     (let s1 = s\<lparr>currentQuestionIndex := currentQuestionIndex s + 1\<rparr> in
      if currentQuestionIndex s1 < length (currentQuestions s1)
      then loadQuestion rnd s1
      else Inr (showResult s1))"

text \<open>
  \<^verbatim>\<open>startQuiz()\<close>, lines 215--236, in one step: \<open>out\<close> is the outcome of the request
  it sends, \<open>rnd\<close> the order chosen for the options of the first question.
\<close>

definition startQuiz :: "js_engine \<Rightarrow> fetch_outcome \<Rightarrow> nat list \<Rightarrow> page \<Rightarrow> js_error + page" where
  "startQuiz E out rnd s =
     (let selectedLanguage = languageSelect s;
          (s1, returned) = generateQuestionsWithAI E out selectedLanguage s;
          s2 = s1\<lparr>currentQuestions := returned\<rparr>
      in if length (currentQuestions s2) = 0
         then Inr (s2\<lparr>languageSelection_hidden := False, quizContainer_hidden := True,
                      scoreCard_hidden := True\<rparr>)
         else loadQuestion rnd
                (s2\<lparr>currentQuestionIndex := 0, score := 0,
                    languageSelection_hidden := True, quizContainer_hidden := False,
                    scoreCard_hidden := True\<rparr>))"

definition retakeQuiz :: "js_engine \<Rightarrow> fetch_outcome \<Rightarrow> nat list \<Rightarrow> page \<Rightarrow> js_error + page" where
  "retakeQuiz E out rnd s = startQuiz E out rnd s"

definition changeLanguage :: "page \<Rightarrow> page" where
  "changeLanguage s =
     s\<lparr>languageSelection_hidden := False, quizContainer_hidden := True,
       scoreCard_hidden := True, loadingIndicator_hidden := True\<rparr>"

section \<open>Runs of the page\<close>

text \<open>
  The user's actions: the four buttons of lines 102--105 and a click on the option
  button at a position. \<open>step\<close> runs the handler of one action, \<open>run\<close> a sequence of
  actions, stopping at an uncaught exception.
\<close>

datatype event =
    Start fetch_outcome "nat list"
  | Select nat
  | Next "nat list"
  | Retake fetch_outcome "nat list"
  | ChangeLanguage

fun step :: "js_engine \<Rightarrow> event \<Rightarrow> page \<Rightarrow> js_error + page" where
  "step E (Start out rnd) s = startQuiz E out rnd s"
| "step E (Select i) s = Inr (click_option i s)"
| "step E (Next rnd) s = loadNextQuestion rnd s"
| "step E (Retake out rnd) s = retakeQuiz E out rnd s"
| "step E ChangeLanguage s = Inr (changeLanguage s)"

fun run :: "js_engine \<Rightarrow> event list \<Rightarrow> page \<Rightarrow> js_error + page" where
  "run E [] s = Inr s"
| "run E (ev # evs) s = seq (step E ev s) (run E evs)"

fun in_quiz :: "event \<Rightarrow> bool" where
  "in_quiz (Select i) = True"
| "in_quiz (Next rnd) = True"
| "in_quiz _ = False"

fun is_Next :: "event \<Rightarrow> bool" where
  "is_Next (Next rnd) = True"
| "is_Next _ = False"

definition nexts :: "event list \<Rightarrow> nat" where
  "nexts evs = length (filter is_Next evs)"

text \<open>
  A complete pass over the questions: for each question one click on an option
  button, then Next. A round is the position clicked and the order chosen for the
  options of the question loaded after it.
\<close>

fun rounds :: "(nat \<times> nat list) list \<Rightarrow> event list" where
  "rounds [] = []"
| "rounds ((i, rnd) # ps) = Select i # Next rnd # rounds ps"

text \<open>
  The number of clicks of a run that hit the correct answer: the text of the button
  clicked is the \<open>answer\<close> of the question the page is at when the click happens.
\<close>

definition hits :: "nat \<Rightarrow> page \<Rightarrow> bool" where
  "hits i s =
     (textContent (optionsContainer s ! i) =
      answer (currentQuestions s ! currentQuestionIndex s))"

fun correct_selections :: "js_engine \<Rightarrow> event list \<Rightarrow> page \<Rightarrow> nat" where
  "correct_selections E [] s = 0"
| "correct_selections E (ev # evs) s =
     (case ev of Select i \<Rightarrow> if hits i s then 1 else 0 | _ \<Rightarrow> 0) +
     (case step E ev s of Inl e \<Rightarrow> 0 | Inr s' \<Rightarrow> correct_selections E evs s')"

section \<open>The shape contract\<close>

text \<open>
  The shape contract in the words of the specification: an element is well formed
  when it has a string \<open>question\<close>, an \<open>options\<close> array of exactly 4 strings, and a
  string \<open>answer\<close> that is a member of its \<open>options\<close>.
\<close>

definition well_formed :: "json \<Rightarrow> bool" where
  "well_formed q =
     (case (own_prop q ''question'', own_prop q ''options'', own_prop q ''answer'') of
        (Some (JStr qu), Some (JArr opts), Some (JStr ans)) \<Rightarrow>
          length opts = 4 \<and> list_all (\<lambda>opt. is_string (Some opt)) opts \<and>
          JStr ans \<in> set opts
      | _ \<Rightarrow> False)"

text \<open>
  The provider fails, in the words of the specification: the transport fails or
  answers with a non-success status, a text does not parse, the path to the text is
  missing, or the parsed value is not an array of well-formed questions.
\<close>

definition provider_failure :: "js_engine \<Rightarrow> fetch_outcome \<Rightarrow> bool" where
  "provider_failure E out =
     (case parsedQuestions_of E out of
        Inl e \<Rightarrow> True
      | Inr None \<Rightarrow> True
      | Inr (Some (JArr qs)) \<Rightarrow> \<not> list_all well_formed qs
      | Inr (Some v) \<Rightarrow> True)"

section \<open>Sample data\<close>

text \<open>
  The page once \<^verbatim>\<open>window.onload\<close> (lines 336--341) has run, with a language chosen.
\<close>

definition page_loaded :: "string \<Rightarrow> page" where
  "page_loaded language =
     \<lparr>currentQuestions = [], currentQuestionIndex = 0, score = 0,
      answeredThisQuestion = False, languageSelect = language,
      languageSelection_hidden = False, loadingIndicator_hidden = True,
      quizContainer_hidden = True, scoreCard_hidden = True, nextButton_hidden = True,
      questionText = [], optionsContainer = [], finalScoreSpan = 0,
      totalQuestionsSpan = 0, alerts = [], fetched = []\<rparr>"

definition sample_question :: json where
  \<open>sample_question =
     JObj [(''question'', JStr ''2+2?''),
           (''options'', JArr [JStr ''1'', JStr ''2'', JStr ''3'', JStr ''4'']),
           (''answer'', JStr ''4'')]\<close>

definition envelope :: "string \<Rightarrow> json" where
  "envelope text =
     JObj [(''candidates'',
            JArr [JObj [(''content'', JObj [(''parts'', JArr [JObj [(''text'', JStr text)]])])]])]"

text \<open>
  The body of a response whose \<^verbatim>\<open>parts[0].text\<close> is the given text, as JSON: in the
  string literal, a double quote and a backslash are each preceded by a backslash.
\<close>

definition quoted :: "string \<Rightarrow> string" where
  "quoted text =
     [CHR 0x22] @
     concat (map (\<lambda>c. if c = CHR 0x22 \<or> c = CHR 0x5C then [CHR 0x5C, c] else [c]) text) @
     [CHR 0x22]"

definition body_with :: "string \<Rightarrow> string" where
  \<open>body_with text =
     ''{"candidates":[{"content":{"parts":[{"text":'' @ quoted text @ ''}]}}]}''\<close>

definition mixed_text :: string where
  \<open>mixed_text = ''[{"question":"2+2?","options":["1","2","3","4"],"answer":"4"},{}]''\<close>

definition sample_text :: string where
  \<open>sample_text = ''[{"question":"2+2?","options":["1","2","3","4"],"answer":"4"}]''\<close>

text \<open>
  The documents of the examples, each with the value \<^verbatim>\<open>JSON.parse\<close> gives for it: four
  texts of \<^verbatim>\<open>parts[0].text\<close>, and the four response bodies that carry them.
\<close>

definition sample_documents :: "(string \<times> json) list" where
  "sample_documents =
     [(''[]'', JArr []),
      (''[null]'', JArr [JNull]),
      (sample_text, JArr [sample_question]),
      (mixed_text, JArr [sample_question, JObj []]),
      (body_with ''[]'', envelope ''[]''),
      (body_with ''[null]'', envelope ''[null]''),
      (body_with sample_text, envelope sample_text),
      (body_with mixed_text, envelope mixed_text)]"

text \<open>
  An engine for the examples: \<^verbatim>\<open>JSON.parse\<close> on the documents above. The examples
  reach neither another text nor the comparison of a non-number with zero.
\<close>

definition sample_engine :: js_engine where
  "sample_engine =
     \<lparr>JSON_parse = (\<lambda>v. case v of
         Some (JStr text) \<Rightarrow>
           (case map_of sample_documents text of
              Some parsed \<Rightarrow> Inr parsed
            | None \<Rightarrow> Inl SyntaxError)
       | _ \<Rightarrow> Inl SyntaxError),
      coerce_gt0 = (\<lambda>v. Inr False)\<rparr>"

definition respond_ok :: "string \<Rightarrow> fetch_outcome" where
  "respond_ok text = Responded \<lparr>ok = True, status = 200, body = body_with text\<rparr>"

definition empty_reply :: fetch_outcome where
  "empty_reply = respond_ok ''[]''"

definition null_reply :: fetch_outcome where
  "null_reply = respond_ok ''[null]''"

definition mixed_reply :: fetch_outcome where
  "mixed_reply = respond_ok mixed_text"

definition one_question_reply :: fetch_outcome where
  "one_question_reply = respond_ok sample_text"

definition server_error_reply :: fetch_outcome where
  "server_error_reply = Responded \<lparr>ok = False, status = 500, body = ''Internal Server Error''\<rparr>"

text \<open>
  The page after a call of \<^verbatim>\<open>generateQuestionsWithAI(language)\<close> that has shown the
  notices \<open>shown\<close>: the request is recorded, the language selection is hidden (line
  116) and the loading indicator is hidden again (line 207).
\<close>

definition settled :: "string \<Rightarrow> alert list \<Rightarrow> page \<Rightarrow> page" where
  "settled language shown s =
     s\<lparr>loadingIndicator_hidden := True, languageSelection_hidden := True,
       fetched := fetched s @ [language], alerts := alerts s @ shown\<rparr>"

text \<open>
  The page after a \<^verbatim>\<open>startQuiz()\<close> whose provider call has shown the notices \<open>shown\<close>
  and returned no question (lines 222--227): the language selection is back, and of
  the quiz variables only \<^verbatim>\<open>currentQuestions\<close> has changed.
\<close>

definition back_to_idle :: "alert list \<Rightarrow> page \<Rightarrow> page" where
  "back_to_idle shown s =
     s\<lparr>currentQuestions := [], languageSelection_hidden := False,
       loadingIndicator_hidden := True, quizContainer_hidden := True,
       scoreCard_hidden := True, fetched := fetched s @ [languageSelect s],
       alerts := alerts s @ shown\<rparr>"

text \<open>
  The page after a \<^verbatim>\<open>startQuiz()\<close> whose provider call has returned the questions
  \<open>qs\<close>, the first of them on display with its options in the order \<open>rnd\<close> selects
  (lines 229--235 and \<^verbatim>\<open>loadQuestion\<close>).
\<close>

definition quiz_started :: "quiz_question list \<Rightarrow> nat list \<Rightarrow> page \<Rightarrow> page" where
  "quiz_started qs rnd s =
     s\<lparr>currentQuestions := qs, currentQuestionIndex := 0, score := 0,
       answeredThisQuestion := False, languageSelection_hidden := True,
       loadingIndicator_hidden := True, quizContainer_hidden := False,
       scoreCard_hidden := True, nextButton_hidden := True,
       questionText := question (qs ! 0),
       optionsContainer := map (new_button (qs ! 0)) (sort_random rnd (options (qs ! 0))),
       fetched := fetched s @ [languageSelect s]\<rparr>"

text \<open>The texts of the option buttons on the page, in their order.\<close>

definition option_texts :: "page \<Rightarrow> string list" where
  "option_texts s = map textContent (optionsContainer s)"

text \<open>
  Three conditions on a page that the handlers keep. The first: a question is on
  display and unanswered, with four enabled buttons whose listeners hold their own
  text and the answer of that question.
\<close>

definition awaiting_answer :: "page \<Rightarrow> bool" where
  "awaiting_answer s \<longleftrightarrow>
     currentQuestionIndex s < length (currentQuestions s) \<and> \<not> answeredThisQuestion s \<and>
     length (optionsContainer s) = 4 \<and>
     list_all (\<lambda>b. \<not> disabled b \<and>
                 listener b = (textContent b, answer (currentQuestions s ! currentQuestionIndex s)))
       (optionsContainer s)"

text \<open>
  The second: the score counts at most one point for each question loaded so far,
  the one on display included only once it is answered.
\<close>

definition score_bounded :: "page \<Rightarrow> bool" where
  "score_bounded s \<longleftrightarrow>
     score s + (if answeredThisQuestion s then 0 else 1)
       \<le> min (currentQuestionIndex s + 1) (length (currentQuestions s))"

text \<open>
  The third: every question has four options, and while a question is on display the
  button texts are its options in some order.
\<close>

definition well_rendered :: "page \<Rightarrow> bool" where
  "well_rendered s \<longleftrightarrow>
     list_all (\<lambda>q. length (options q) = 4) (currentQuestions s) \<and>
     (if currentQuestionIndex s < length (currentQuestions s)
      then mset (option_texts s) = mset (options (currentQuestions s ! currentQuestionIndex s))
      else True)"

text \<open>
  Two pages of the examples: the sample question just started from the loaded page,
  with its options in the order received, and the same quiz after a click on the
  fourth button and on Next.
\<close>

definition sample_started :: page where
  "sample_started =
     \<lparr>currentQuestions =
        [\<lparr>question = ''2+2?'', options = [''1'', ''2'', ''3'', ''4''], answer = ''4''\<rparr>],
      currentQuestionIndex = 0, score = 0, answeredThisQuestion = False,
      languageSelect = ''Python'', languageSelection_hidden = True,
      loadingIndicator_hidden = True, quizContainer_hidden = False,
      scoreCard_hidden = True, nextButton_hidden = True, questionText = ''2+2?'',
      optionsContainer =
        [\<lparr>textContent = ''1'', disabled = False, classList = [''option-button''],
           listener = (''1'', ''4'')\<rparr>,
         \<lparr>textContent = ''2'', disabled = False, classList = [''option-button''],
           listener = (''2'', ''4'')\<rparr>,
         \<lparr>textContent = ''3'', disabled = False, classList = [''option-button''],
           listener = (''3'', ''4'')\<rparr>,
         \<lparr>textContent = ''4'', disabled = False, classList = [''option-button''],
           listener = (''4'', ''4'')\<rparr>],
      finalScoreSpan = 0, totalQuestionsSpan = 0, alerts = [], fetched = [''Python'']\<rparr>"

definition sample_finished :: page where
  "sample_finished =
     \<lparr>currentQuestions =
        [\<lparr>question = ''2+2?'', options = [''1'', ''2'', ''3'', ''4''], answer = ''4''\<rparr>],
      currentQuestionIndex = 1, score = 1, answeredThisQuestion = True,
      languageSelect = ''Python'', languageSelection_hidden = True,
      loadingIndicator_hidden = True, quizContainer_hidden = True,
      scoreCard_hidden = False, nextButton_hidden = False, questionText = ''2+2?'',
      optionsContainer =
        [\<lparr>textContent = ''1'', disabled = True, classList = [''option-button''],
           listener = (''1'', ''4'')\<rparr>,
         \<lparr>textContent = ''2'', disabled = True, classList = [''option-button''],
           listener = (''2'', ''4'')\<rparr>,
         \<lparr>textContent = ''3'', disabled = True, classList = [''option-button''],
           listener = (''3'', ''4'')\<rparr>,
         \<lparr>textContent = ''4'', disabled = True, classList = [''option-button'', ''correct''],
           listener = (''4'', ''4'')\<rparr>],
      finalScoreSpan = 1, totalQuestionsSpan = 1, alerts = [], fetched = [''Python'']\<rparr>"

section \<open>Validation of the parsed questions\<close>

lemma seq_Inl [simp]: "seq (Inl e) f = Inl e"
  by (simp add: seq_def)

lemma seq_Inr [simp]: "seq (Inr a) f = f a"
  by (simp add: seq_def)

lemma same_value_zero_string: "same_value_zero x (Some (JStr a)) = (x = JStr a)"
  by (cases x) auto

lemma array_includes_string: "array_includes xs (Some (JStr a)) = (JStr a \<in> set xs)"
  by (simp add: array_includes_def list_ex_iff same_value_zero_string)

lemma is_string_iff: "is_string v = (\<exists>s. v = Some (JStr s))"
  by (cases v rule: is_string.cases) auto

text \<open>On an object, the callback of line 183 computes the shape contract.\<close>

lemma valid_question_object:
  "valid_question (JObj kvs) = Inr (well_formed (JObj kvs))"
proof (cases "map_of kvs ''question''")
  case None
  then show ?thesis by (simp add: valid_question_def well_formed_def)
next
  case (Some qu)
  show ?thesis
  proof (cases "is_string (Some qu)")
    case False
    with Some show ?thesis
      by (cases qu) (simp_all add: valid_question_def well_formed_def)
  next
    case True
    then obtain s where qu: "qu = JStr s" by (auto simp: is_string_iff)
    show ?thesis
    proof (cases "map_of kvs ''options''")
      case None
      with Some qu show ?thesis by (simp add: valid_question_def well_formed_def)
    next
      case opts: (Some ov)
      show ?thesis
      proof (cases ov)
        case (JArr os)
        show ?thesis
        proof (cases "map_of kvs ''answer''")
          case None
          with Some qu opts JArr show ?thesis
            by (simp add: valid_question_def well_formed_def)
        next
          case ans: (Some av)
          with Some qu opts JArr show ?thesis
            by (cases av)
               (auto simp: valid_question_def well_formed_def array_includes_string)
        qed
      qed (use Some qu opts in \<open>simp_all add: valid_question_def well_formed_def\<close>)
    qed
  qed
qed

text \<open>
  On \<^verbatim>\<open>null\<close> the first property read throws; every other value that is not an object
  has none of the three properties.
\<close>

lemma valid_question_cases:
  "valid_question q = (if q = JNull then Inl TypeError else Inr (well_formed q))"
proof (cases q)
  case (JObj kvs)
  then show ?thesis by (simp add: valid_question_object)
qed (simp_all add: valid_question_def well_formed_def)

lemma well_formed_not_null: "well_formed q \<Longrightarrow> q \<noteq> JNull"
  by (auto simp: well_formed_def)

lemma every_valid_all: "list_all well_formed qs \<Longrightarrow> every_valid qs = Inr True"
  by (induction qs) (auto simp: valid_question_cases well_formed_not_null)

lemma every_valid_first_bad:
  "find (\<lambda>q. \<not> well_formed q) qs = Some bad \<Longrightarrow>
   every_valid qs = (if bad = JNull then Inl TypeError else Inr False)"
  by (induction qs) (auto simp: valid_question_cases well_formed_not_null split: if_splits)

lemma find_bad:
  "\<not> list_all well_formed qs \<Longrightarrow> \<exists>bad. find (\<lambda>q. \<not> well_formed q) qs = Some bad"
  by (induction qs) auto

lemma well_formed_props:
  assumes "well_formed q"
  obtains qu opts ans where
    "own_prop q ''question'' = Some (JStr qu)"
    "own_prop q ''options'' = Some (JArr opts)"
    "own_prop q ''answer'' = Some (JStr ans)"
    "length opts = 4" "list_all (\<lambda>opt. is_string (Some opt)) opts" "JStr ans \<in> set opts"
proof (cases "own_prop q ''question''")
  case None
  with assms show thesis by (simp add: well_formed_def)
next
  case qu: (Some a)
  show thesis
  proof (cases "own_prop q ''options''")
    case None
    with assms qu show thesis by (cases a) (simp_all add: well_formed_def)
  next
    case opts: (Some b)
    show thesis
    proof (cases "own_prop q ''answer''")
      case None
      with assms qu opts show thesis
        by (cases a; cases b) (simp_all add: well_formed_def)
    next
      case ans: (Some c)
      with assms qu opts that show thesis
        by (cases a; cases b; cases c) (simp_all add: well_formed_def)
    qed
  qed
qed

lemma as_question_well_formed:
  assumes "well_formed q"
  shows "length (options (as_question q)) = 4"
    and "answer (as_question q) \<in> set (options (as_question q))"
proof -
  from assms obtain qu :: string and opts ans where
    p: "own_prop q ''options'' = Some (JArr opts)" "own_prop q ''answer'' = Some (JStr ans)"
       "length opts = 4" "JStr ans \<in> set opts"
    by (rule well_formed_props)
  show "length (options (as_question q)) = 4"
    using p by (simp add: as_question_def)
  have "string_of (Some (JStr ans)) \<in> (\<lambda>opt. string_of (Some opt)) ` set opts"
    using p(4) by (rule imageI)
  then show "answer (as_question q) \<in> set (options (as_question q))"
    using p by (simp add: as_question_def)
qed

section \<open>The provider call, case by case\<close>

lemma generate_thrown:
  "parsedQuestions_of E out = Inl e \<Longrightarrow>
   generateQuestionsWithAI E out language s = (settled language [FailedToGenerate e] s, [])"
  by (simp add: generateQuestionsWithAI_def try_block_def show_alert_def settled_def)

lemma generate_no_parts:
  "parsedQuestions_of E out = Inr None \<Longrightarrow>
   generateQuestionsWithAI E out language s = (settled language [NoValidQuestions] s, [])"
  by (simp add: generateQuestionsWithAI_def try_block_def show_alert_def settled_def)

lemma generate_validation_thrown:
  "parsedQuestions_of E out = Inr (Some v) \<Longrightarrow> valid_questions v = Inl e \<Longrightarrow>
   generateQuestionsWithAI E out language s = (settled language [FailedToGenerate e] s, [])"
  by (simp add: generateQuestionsWithAI_def try_block_def show_alert_def settled_def)

lemma generate_invalid:
  "parsedQuestions_of E out = Inr (Some v) \<Longrightarrow> valid_questions v = Inr False \<Longrightarrow>
   generateQuestionsWithAI E out language s = (settled language [FailedToParse] s, [])"
  by (simp add: generateQuestionsWithAI_def try_block_def show_alert_def settled_def)

lemma generate_valid:
  "parsedQuestions_of E out = Inr (Some v) \<Longrightarrow> valid_questions v = Inr True \<Longrightarrow>
   generateQuestionsWithAI E out language s =
     (settled language [] s, map as_question (elements (Some v)))"
  by (simp add: generateQuestionsWithAI_def try_block_def show_alert_def settled_def)

lemma valid_questions_not_array:
  "\<forall>qs. v \<noteq> JArr qs \<Longrightarrow> valid_questions v = Inr False"
  by (cases v) (simp_all add: valid_questions_def)

lemma valid_questions_array: "valid_questions (JArr qs) = every_valid qs"
  by (simp add: valid_questions_def)

lemma generate_first_bad:
  assumes "parsedQuestions_of E out = Inr (Some (JArr qs))"
    and "find (\<lambda>q. \<not> well_formed q) qs = Some bad"
  shows "generateQuestionsWithAI E out language s =
           (settled language
              [if bad = JNull then FailedToGenerate TypeError else FailedToParse] s, [])"
proof (cases "bad = JNull")
  case True
  with assms(2) have "valid_questions (JArr qs) = Inl TypeError"
    by (simp add: valid_questions_array every_valid_first_bad)
  with assms(1) True show ?thesis
    by (simp add: generate_validation_thrown)
next
  case False
  with assms(2) have "valid_questions (JArr qs) = Inr False"
    by (simp add: valid_questions_array every_valid_first_bad)
  with assms(1) False show ?thesis
    by (simp add: generate_invalid)
qed

lemma generate_all_well_formed:
  assumes "parsedQuestions_of E out = Inr (Some (JArr qs))" and "list_all well_formed qs"
  shows "generateQuestionsWithAI E out language s = (settled language [] s, map as_question qs)"
proof -
  from assms(2) have "valid_questions (JArr qs) = Inr True"
    by (simp add: valid_questions_array every_valid_all)
  with assms(1) show ?thesis by (simp add: generate_valid)
qed

lemma generate_failure:
  assumes "provider_failure E out"
  shows "\<exists>a. generateQuestionsWithAI E out language s = (settled language [a] s, [])"
proof (cases "parsedQuestions_of E out")
  case (Inl e)
  then show ?thesis by (auto simp: generate_thrown)
next
  case (Inr reached)
  show ?thesis
  proof (cases reached)
    case None
    with Inr show ?thesis by (auto simp: generate_no_parts)
  next
    case (Some v)
    show ?thesis
    proof (cases "\<exists>qs. v = JArr qs")
      case False
      then have "valid_questions v = Inr False"
        by (simp add: valid_questions_not_array)
      with Inr Some show ?thesis by (auto simp: generate_invalid)
    next
      case True
      then obtain qs where v: "v = JArr qs" ..
      with assms Inr Some have "\<not> list_all well_formed qs"
        by (simp add: provider_failure_def)
      then obtain bad where "find (\<lambda>q. \<not> well_formed q) qs = Some bad"
        using find_bad by blast
      with Inr Some v show ?thesis
        by (auto simp: generate_first_bad)
    qed
  qed
qed

lemma no_failure_payload:
  assumes "\<not> provider_failure E out"
  obtains qs where "parsedQuestions_of E out = Inr (Some (JArr qs))" "list_all well_formed qs"
proof (cases "parsedQuestions_of E out")
  case (Inl e)
  with assms show thesis by (simp add: provider_failure_def)
next
  case (Inr reached)
  show thesis
  proof (cases reached)
    case None
    with assms Inr show thesis by (simp add: provider_failure_def)
  next
    case (Some v)
    with assms Inr that show thesis
      by (cases v) (simp_all add: provider_failure_def)
  qed
qed

text \<open>The kinds of failure, one by one.\<close>

lemma provider_failure_classes:
  "provider_failure E (Rejected msg)"
  "\<not> ok r \<Longrightarrow> provider_failure E (Responded r)"
  "ok r \<Longrightarrow> JSON_parse E (Some (JStr (body r))) = Inl e \<Longrightarrow> provider_failure E (Responded r)"
  "ok r \<Longrightarrow> JSON_parse E (Some (JStr (body r))) = Inr result \<Longrightarrow>
     has_parts E result = Inl e \<Longrightarrow> provider_failure E (Responded r)"
  "ok r \<Longrightarrow> JSON_parse E (Some (JStr (body r))) = Inr result \<Longrightarrow>
     has_parts E result = Inr False \<Longrightarrow> provider_failure E (Responded r)"
  "ok r \<Longrightarrow> JSON_parse E (Some (JStr (body r))) = Inr result \<Longrightarrow>
     has_parts E result = Inr True \<Longrightarrow> parts_text result = Inr jsonString \<Longrightarrow>
     JSON_parse E jsonString = Inl e \<Longrightarrow> provider_failure E (Responded r)"
  "ok r \<Longrightarrow> JSON_parse E (Some (JStr (body r))) = Inr result \<Longrightarrow>
     has_parts E result = Inr True \<Longrightarrow> parts_text result = Inr jsonString \<Longrightarrow>
     JSON_parse E jsonString = Inr (JArr qs) \<Longrightarrow> \<not> list_all well_formed qs \<Longrightarrow>
     provider_failure E (Responded r)"
  by (simp_all add: provider_failure_def parsedQuestions_of_def)

text \<open>
  On a response of the documented shape the text is found, whatever the engine; on
  an object without \<^verbatim>\<open>candidates\<close> it is not.
\<close>

lemma envelope_read:
  "has_parts E (envelope text) = Inr True"
  "parts_text (envelope text) = Inr (Some (JStr text))"
  "has_parts E (JObj []) = Inr False"
  by (simp_all add: envelope_def has_parts_def parts_text_def)

section \<open>The sample documents\<close>

lemma parsed_null: "parsedQuestions_of sample_engine null_reply = Inr (Some (JArr [JNull]))"
  by (simp add: parsedQuestions_of_def null_reply_def respond_ok_def sample_engine_def
      sample_documents_def body_with_def quoted_def sample_text_def mixed_text_def envelope_def
      has_parts_def parts_text_def)

lemma parsed_empty: "parsedQuestions_of sample_engine empty_reply = Inr (Some (JArr []))"
  by (simp add: parsedQuestions_of_def empty_reply_def respond_ok_def sample_engine_def
      sample_documents_def body_with_def quoted_def sample_text_def mixed_text_def envelope_def
      has_parts_def parts_text_def)

lemma parsed_one:
  "parsedQuestions_of sample_engine one_question_reply = Inr (Some (JArr [sample_question]))"
  by (simp add: parsedQuestions_of_def one_question_reply_def respond_ok_def sample_engine_def
      sample_documents_def body_with_def quoted_def sample_text_def mixed_text_def envelope_def
      has_parts_def parts_text_def)

lemma parsed_mixed:
  "parsedQuestions_of sample_engine mixed_reply = Inr (Some (JArr [sample_question, JObj []]))"
  by (simp add: parsedQuestions_of_def mixed_reply_def respond_ok_def sample_engine_def
      sample_documents_def body_with_def quoted_def sample_text_def mixed_text_def envelope_def
      has_parts_def parts_text_def)

lemma well_formed_sample: "well_formed sample_question"
  by (simp add: well_formed_def sample_question_def)

lemma as_question_sample:
  "as_question sample_question =
     \<lparr>question = ''2+2?'', options = [''1'', ''2'', ''3'', ''4''], answer = ''4''\<rparr>"
  by (simp add: as_question_def sample_question_def)

section \<open>Claims about the question provider\<close>

text \<open>
  C7. A response with a non-success status makes \<^verbatim>\<open>generateQuestionsWithAI\<close> fail
  with the transport error of line 166, which carries the status and the body of the
  response: that error, and no other, is what the one notice shown reports, and no
  question is returned.
\<close>

theorem non_success_status_is_transport_error:
  assumes "\<not> ok r"
  shows "generateQuestionsWithAI E (Responded r) language s =
           (settled language [FailedToGenerate (HttpError (status r) (body r))] s, [])"
  using assms by (simp add: generate_thrown parsedQuestions_of_def)

theorem non_success_status_is_transport_error_witness:
  "\<not> ok \<lparr>ok = False, status = 500, body = ''Internal Server Error''\<rparr> \<and>
   generateQuestionsWithAI sample_engine server_error_reply ''Python'' (page_loaded ''Python'') =
     (settled ''Python'' [FailedToGenerate (HttpError 500 ''Internal Server Error'')]
        (page_loaded ''Python''), [])"
  using non_success_status_is_transport_error
    [of "\<lparr>ok = False, status = 500, body = ''Internal Server Error''\<rparr>"
        sample_engine "''Python''" "page_loaded ''Python''"]
  by (simp add: server_error_reply_def)

text \<open>
  C1. Validation of the parsed array is meant to be all-or-nothing with one kind of
  failure: an array with an element that is not well formed is an invalid question
  set (the branch of lines 188--192), and no question of it is returned. The program
  does so for every ill-formed element but \<^verbatim>\<open>null\<close>: the callback of line 183 reads
  \<^verbatim>\<open>q.question\<close> without a guard, so on the array \<^verbatim>\<open>[null]\<close> it throws, and the call ends
  in the \<^verbatim>\<open>catch\<close> block with the \<^verbatim>\<open>TypeError\<close> as its notice. Below, the program on
  \<^verbatim>\<open>[null]\<close>, and beside it on the sample question followed by an empty object, where
  the notice is the one of line 191. In both nothing is returned.
\<close>

theorem null_element_misses_invalid_format_branch:
  "parsedQuestions_of sample_engine null_reply = Inr (Some (JArr [JNull])) \<and>
   \<not> list_all well_formed [JNull] \<and>
   generateQuestionsWithAI sample_engine null_reply ''Python'' (page_loaded ''Python'') =
     (settled ''Python'' [FailedToGenerate TypeError] (page_loaded ''Python''), []) \<and>
   FailedToGenerate TypeError \<noteq> FailedToParse \<and>
   parsedQuestions_of sample_engine mixed_reply = Inr (Some (JArr [sample_question, JObj []])) \<and>
   \<not> list_all well_formed [sample_question, JObj []] \<and>
   generateQuestionsWithAI sample_engine mixed_reply ''Python'' (page_loaded ''Python'') =
     (settled ''Python'' [FailedToParse] (page_loaded ''Python''), [])"
proof -
  have null: "find (\<lambda>q. \<not> well_formed q) [JNull] = Some JNull"
    by (simp add: well_formed_def)
  have empty: "find (\<lambda>q. \<not> well_formed q) [sample_question, JObj []] = Some (JObj [])"
    by (simp add: well_formed_sample) (simp add: well_formed_def)
  from generate_first_bad [OF parsed_null null, of "''Python''" "page_loaded ''Python''"]
    generate_first_bad [OF parsed_mixed empty, of "''Python''" "page_loaded ''Python''"]
  show ?thesis
    by (simp add: parsed_null parsed_mixed well_formed_def)
qed

text \<open>
  C2. When the parsed value is an array of well-formed questions,
  \<^verbatim>\<open>generateQuestionsWithAI\<close> shows no notice and returns the questions of the array,
  as many as the array has elements and in its order; in each of them the answer is one
  of the four options.
\<close>

theorem well_formed_array_is_returned:
  assumes "parsedQuestions_of E out = Inr (Some (JArr qs))"
    and "list_all well_formed qs"
  shows "generateQuestionsWithAI E out language s =
           (settled language [] s, map as_question qs) \<and>
         length (map as_question qs) = length qs \<and>
         (\<forall>q \<in> set (map as_question qs).
            answer q \<in> set (options q) \<and> length (options q) = 4)"
proof -
  from assms(2) have "\<forall>q \<in> set (map as_question qs).
      answer q \<in> set (options q) \<and> length (options q) = 4"
    by (auto simp: list_all_iff as_question_well_formed)
  with generate_all_well_formed [OF assms] show ?thesis by simp
qed

theorem well_formed_array_is_returned_witness:
  "parsedQuestions_of sample_engine one_question_reply = Inr (Some (JArr [sample_question])) \<and>
   list_all well_formed [sample_question] \<and>
   generateQuestionsWithAI sample_engine one_question_reply ''Python'' (page_loaded ''Python'') =
     (settled ''Python'' [] (page_loaded ''Python''),
      [\<lparr>question = ''2+2?'', options = [''1'', ''2'', ''3'', ''4''], answer = ''4''\<rparr>]) \<and>
   answer (as_question sample_question) \<in> set (options (as_question sample_question))"
proof -
  have h: "list_all well_formed [sample_question]"
    by (simp add: well_formed_sample)
  from well_formed_array_is_returned
    [OF parsed_one h, of "''Python''" "page_loaded ''Python''"] parsed_one h
  show ?thesis by (simp add: as_question_sample)
qed

text \<open>
  C10. \<^verbatim>\<open>generateQuestionsWithAI\<close> returns on every outcome of the request: what the
  \<^verbatim>\<open>try\<close> block throws is caught at line 200, and nothing before line 155 or in the
  \<^verbatim>\<open>catch\<close> and \<^verbatim>\<open>finally\<close> blocks throws. Whenever the provider fails (the request is
  rejected or answered with a non-success status, a text does not parse, the path to
  the text is missing, or the parsed value is not an array of well-formed questions),
  what it returns is the empty array, after one notice. In every other case it
  returns the questions of the parsed array and shows no notice; so an empty array
  is all a caller sees of a failure.
\<close>

theorem every_outcome_returns:
  "(provider_failure E out \<longrightarrow>
      (\<exists>a. generateQuestionsWithAI E out language s = (settled language [a] s, []))) \<and>
   (\<not> provider_failure E out \<longrightarrow>
      (\<exists>qs. parsedQuestions_of E out = Inr (Some (JArr qs)) \<and> list_all well_formed qs \<and>
         generateQuestionsWithAI E out language s =
           (settled language [] s, map as_question qs)))"
proof (intro conjI impI)
  assume "provider_failure E out"
  then show "\<exists>a. generateQuestionsWithAI E out language s = (settled language [a] s, [])"
    by (rule generate_failure)
next
  assume "\<not> provider_failure E out"
  then obtain qs where qs: "parsedQuestions_of E out = Inr (Some (JArr qs))"
      "list_all well_formed qs"
    by (rule no_failure_payload)
  then have "generateQuestionsWithAI E out language s =
      (settled language [] s, map as_question qs)"
    by (rule generate_all_well_formed)
  with qs show "\<exists>qs. parsedQuestions_of E out = Inr (Some (JArr qs)) \<and>
      list_all well_formed qs \<and>
      generateQuestionsWithAI E out language s = (settled language [] s, map as_question qs)"
    by blast
qed

text \<open>A request that is rejected, and a response that carries the sample question.\<close>

theorem every_outcome_returns_witness:
  "provider_failure sample_engine (Rejected ''Failed to fetch'') \<and>
   (\<exists>a. generateQuestionsWithAI sample_engine (Rejected ''Failed to fetch'') ''Python''
           (page_loaded ''Python'') = (settled ''Python'' [a] (page_loaded ''Python''), [])) \<and>
   \<not> provider_failure sample_engine one_question_reply \<and>
   (\<exists>qs. generateQuestionsWithAI sample_engine one_question_reply ''Python''
           (page_loaded ''Python'') =
            (settled ''Python'' [] (page_loaded ''Python''), map as_question qs))"
proof -
  have h: "provider_failure sample_engine (Rejected ''Failed to fetch'')"
    by (simp add: provider_failure_def parsedQuestions_of_def)
  have n: "\<not> provider_failure sample_engine one_question_reply"
    by (simp add: provider_failure_def parsed_one well_formed_sample)
  from every_outcome_returns
    [of sample_engine "Rejected ''Failed to fetch''" "''Python''" "page_loaded ''Python''"] h
  have 1: "\<exists>a. generateQuestionsWithAI sample_engine (Rejected ''Failed to fetch'') ''Python''
           (page_loaded ''Python'') = (settled ''Python'' [a] (page_loaded ''Python''), [])"
    by blast
  from every_outcome_returns
    [of sample_engine one_question_reply "''Python''" "page_loaded ''Python''"] n
  have 2: "\<exists>qs. generateQuestionsWithAI sample_engine one_question_reply ''Python''
           (page_loaded ''Python'') =
            (settled ''Python'' [] (page_loaded ''Python''), map as_question qs)"
    by blast
  from h 1 n 2 show ?thesis by blast
qed

section \<open>The handlers, field by field\<close>

lemma mset_sort_random: "mset (sort_random rnd xs) = mset xs"
proof (induction rnd xs rule: sort_random.induct)
  case (3 k rnd x xs)
  define ys where "ys = x # xs"
  define i where "i = k mod length ys"
  have i: "i < length ys" by (simp add: i_def ys_def)
  have "mset ys = mset (take i ys @ ys ! i # drop (Suc i) ys)"
    using i by (simp add: id_take_nth_drop [symmetric])
  then have "mset ys = add_mset (ys ! i) (mset (take i ys @ drop (Suc i) ys))"
    by simp
  with 3 show ?case
    by (simp add: Let_def ys_def i_def)
qed simp_all

lemma length_sort_random: "length (sort_random rnd xs) = length xs"
  using mset_sort_random [of rnd xs] by (metis size_mset)

text \<open>No order of the options is left out by the choice of \<open>rnd\<close>.\<close>

lemma sort_random_reaches_every_order:
  "mset ys = mset xs \<Longrightarrow> \<exists>rnd. sort_random rnd xs = ys"
proof (induction ys arbitrary: xs)
  case Nil
  then show ?case by simp
next
  case (Cons y ys)
  from Cons.prems have "y \<in> set xs"
    by (metis list.set_intros(1) set_mset_mset)
  then obtain i where i: "i < length xs" "xs ! i = y"
    by (auto simp: in_set_conv_nth)
  let ?rest = "take i xs @ drop (Suc i) xs"
  from i have "xs = take i xs @ y # drop (Suc i) xs"
    using id_take_nth_drop [of i xs] by simp
  then have "mset xs = add_mset y (mset ?rest)"
    by (metis mset.simps(2) mset_append union_mset_add_mset_right)
  with Cons.prems have "mset ys = mset ?rest" by simp
  from Cons.IH [OF this] obtain rnd where rnd: "sort_random rnd ?rest = ys" ..
  from i obtain x xs' where xs: "xs = x # xs'" by (cases xs) auto
  from i have "i mod length xs = i" by simp
  with rnd i xs have "sort_random (i # rnd) xs = y # ys"
    by (simp add: Let_def)
  then show ?case ..
qed

lemma loadQuestion_in_range:
  assumes "currentQuestionIndex s < length (currentQuestions s)"
  shows "loadQuestion rnd s =
     Inr (s\<lparr>answeredThisQuestion := False,
            questionText := question (currentQuestions s ! currentQuestionIndex s),
            nextButton_hidden := True,
            optionsContainer :=
              map (new_button (currentQuestions s ! currentQuestionIndex s))
                  (sort_random rnd (options (currentQuestions s ! currentQuestionIndex s)))\<rparr>)"
  using assms by (simp add: loadQuestion_def Let_def)

lemma textContent_new_button: "map textContent (map (new_button q) xs) = xs"
  by (induction xs) (simp_all add: new_button_def)

lemma textContent_classList_add [simp]: "textContent (classList_add c b) = textContent b"
  by (simp add: classList_add_def)

lemma listener_classList_add [simp]: "listener (classList_add c b) = listener b"
  by (simp add: classList_add_def)

lemma selectOption_fields:
  "currentQuestions (selectOption i a b s) = currentQuestions s"
  "currentQuestionIndex (selectOption i a b s) = currentQuestionIndex s"
  "scoreCard_hidden (selectOption i a b s) = scoreCard_hidden s"
  "quizContainer_hidden (selectOption i a b s) = quizContainer_hidden s"
  "languageSelect (selectOption i a b s) = languageSelect s"
  "fetched (selectOption i a b s) = fetched s"
  "alerts (selectOption i a b s) = alerts s"
  by (simp_all add: selectOption_def Let_def)

lemma map_update_same:
  assumes "\<And>x. f (g x) = f x"
  shows "map f (xs[i := g (xs ! i)]) = map f xs"
proof (cases "i < length xs")
  case True
  then have "map f (xs[i := g (xs ! i)]) = (map f xs)[i := map f xs ! i]"
    by (simp add: map_update assms)
  then show ?thesis by simp
next
  case False
  then have "xs[i := g (xs ! i)] = xs"
    by (intro list_update_beyond) simp
  then show ?thesis by simp
qed

lemma selectOption_keeps:
  assumes "\<And>c b. f (classList_add c b) = f b" and "\<And>b. f (b\<lparr>disabled := True\<rparr>) = f b"
  shows "map f (optionsContainer (selectOption i a b s)) = map f (optionsContainer s)"
proof -
  let ?ds = "map (\<lambda>button. button\<lparr>disabled := True\<rparr>) (optionsContainer s)"
  have ds: "map f ?ds = map f (optionsContainer s)"
    by (simp add: assms(2) o_def)
  have one: "\<And>c. map f (?ds[i := classList_add c (?ds ! i)]) = map f (optionsContainer s)"
    using map_update_same [of f "classList_add _" ?ds i] assms(1) ds by simp
  have two: "\<And>c xs. map f (map (\<lambda>button. if textContent button = b
       then classList_add c button else button) xs) = map f xs"
    by (simp add: assms(1) o_def cong: if_cong)
  show ?thesis
    by (simp add: selectOption_def Let_def one two del: map_map)
qed

lemma selectOption_texts:
  "map textContent (optionsContainer (selectOption i a b s)) = map textContent (optionsContainer s)"
  by (rule selectOption_keeps) simp_all

lemma click_option_fields:
  "currentQuestions (click_option i s) = currentQuestions s"
  "currentQuestionIndex (click_option i s) = currentQuestionIndex s"
  "scoreCard_hidden (click_option i s) = scoreCard_hidden s"
  "quizContainer_hidden (click_option i s) = quizContainer_hidden s"
  "languageSelect (click_option i s) = languageSelect s"
  "fetched (click_option i s) = fetched s"
  "alerts (click_option i s) = alerts s"
  "map textContent (optionsContainer (click_option i s)) = map textContent (optionsContainer s)"
  by (simp_all add: click_option_def selectOption_fields selectOption_texts)

lemma loadNextQuestion_cases:
  "loadNextQuestion rnd s =
     (if currentQuestionIndex s + 1 < length (currentQuestions s)
      then Inr (s\<lparr>currentQuestionIndex := currentQuestionIndex s + 1,
                  answeredThisQuestion := False,
                  questionText := question (currentQuestions s ! (currentQuestionIndex s + 1)),
                  nextButton_hidden := True,
                  optionsContainer :=
                    map (new_button (currentQuestions s ! (currentQuestionIndex s + 1)))
                      (sort_random rnd
                         (options (currentQuestions s ! (currentQuestionIndex s + 1))))\<rparr>)
      else Inr (s\<lparr>currentQuestionIndex := currentQuestionIndex s + 1,
                  quizContainer_hidden := True, scoreCard_hidden := False,
                  finalScoreSpan := score s,
                  totalQuestionsSpan := length (currentQuestions s)\<rparr>))"
  by (simp add: loadNextQuestion_def Let_def loadQuestion_in_range showResult_def)

section \<open>Starting a quiz\<close>

lemma startQuiz_empty:
  assumes "generateQuestionsWithAI E out (languageSelect s) s =
             (settled (languageSelect s) shown s, [])"
  shows "startQuiz E out rnd s = Inr (back_to_idle shown s)"
  using assms by (simp add: startQuiz_def settled_def back_to_idle_def)

lemma startQuiz_nonempty:
  assumes "generateQuestionsWithAI E out (languageSelect s) s =
             (settled (languageSelect s) [] s, qs)" and "qs \<noteq> []"
  shows "startQuiz E out rnd s = Inr (quiz_started qs rnd s)"
  using assms by (simp add: startQuiz_def settled_def quiz_started_def loadQuestion_in_range)

lemma startQuiz_cases:
  obtains (failed) a where "provider_failure E out"
      "startQuiz E out rnd s = Inr (back_to_idle [a] s)"
  | (empty) "parsedQuestions_of E out = Inr (Some (JArr []))"
      "startQuiz E out rnd s = Inr (back_to_idle [] s)"
  | (started) js where "parsedQuestions_of E out = Inr (Some (JArr js))"
      "list_all well_formed js" "js \<noteq> []"
      "startQuiz E out rnd s = Inr (quiz_started (map as_question js) rnd s)"
proof (cases "provider_failure E out")
  case True
  from generate_failure [OF this] obtain a where
    "generateQuestionsWithAI E out (languageSelect s) s = (settled (languageSelect s) [a] s, [])"
    by blast
  then have "startQuiz E out rnd s = Inr (back_to_idle [a] s)"
    by (rule startQuiz_empty)
  with True show thesis by (rule failed)
next
  case False
  then obtain js where js: "parsedQuestions_of E out = Inr (Some (JArr js))"
      "list_all well_formed js"
    by (rule no_failure_payload)
  then have g: "generateQuestionsWithAI E out (languageSelect s) s =
      (settled (languageSelect s) [] s, map as_question js)"
    by (rule generate_all_well_formed)
  show thesis
  proof (cases "js = []")
    case True
    with g js show thesis by (intro empty) (simp_all add: startQuiz_empty)
  next
    case False
    with g js show thesis by (intro started [of js]) (simp_all add: startQuiz_nonempty)
  qed
qed

lemma loadNextQuestion_total: "\<exists>s'. loadNextQuestion rnd s = Inr s'"
  by (simp add: loadNextQuestion_cases)

section \<open>What a run keeps\<close>

lemma run_invariant:
  assumes click: "\<And>i s. P s \<Longrightarrow> P (click_option i s)"
    and nxt: "\<And>rnd s s'. P s \<Longrightarrow> loadNextQuestion rnd s = Inr s' \<Longrightarrow> P s'"
  shows "list_all in_quiz evs \<Longrightarrow> P s \<Longrightarrow> \<exists>s'. run E evs s = Inr s' \<and> P s'"
proof (induction evs arbitrary: s)
  case Nil
  then show ?case by simp
next
  case (Cons ev evs)
  show ?case
  proof (cases ev)
    case (Select i)
    with Cons show ?thesis by (simp add: click)
  next
    case (Next rnd)
    obtain s1 where s1: "loadNextQuestion rnd s = Inr s1"
      using loadNextQuestion_total by blast
    with Cons.prems have "P s1" by (auto intro: nxt)
    with Cons Next s1 show ?thesis by simp
  qed (use Cons.prems in simp_all)
qed

lemma selectOption_score:
  "score (selectOption i a b s) =
     (if \<not> answeredThisQuestion s \<and> a = b then score s + 1 else score s)"
  by (simp add: selectOption_def Let_def)

lemma selectOption_answered:
  "answeredThisQuestion (selectOption i a b s)"
  by (simp add: selectOption_def Let_def)

lemma click_option_bounded: "score_bounded s \<Longrightarrow> score_bounded (click_option i s)"
  by (auto simp: score_bounded_def click_option_def selectOption_score selectOption_answered
      selectOption_fields)

lemma loadNextQuestion_bounded:
  "score_bounded s \<Longrightarrow> loadNextQuestion rnd s = Inr s' \<Longrightarrow> score_bounded s'"
  by (auto simp: score_bounded_def loadNextQuestion_cases split: if_splits)

lemma nexts_simps [simp]:
  "nexts [] = 0"
  "nexts (Select i # evs) = nexts evs"
  "nexts (Next rnd # evs) = Suc (nexts evs)"
  by (simp_all add: nexts_def)

lemma run_index:
  "list_all in_quiz evs \<Longrightarrow>
   \<exists>s'. run E evs s = Inr s' \<and>
        currentQuestionIndex s' = currentQuestionIndex s + nexts evs \<and>
        currentQuestions s' = currentQuestions s \<and>
        languageSelect s' = languageSelect s \<and> fetched s' = fetched s \<and>
        (currentQuestionIndex s + nexts evs < length (currentQuestions s) \<longrightarrow>
           scoreCard_hidden s' = scoreCard_hidden s \<and>
           quizContainer_hidden s' = quizContainer_hidden s)"
proof (induction evs arbitrary: s)
  case Nil
  then show ?case by simp
next
  case (Cons ev evs)
  show ?case
  proof (cases ev)
    case (Select i)
    from Cons.prems Select have "list_all in_quiz evs" by simp
    from Cons.IH [OF this, of "click_option i s"] Select show ?thesis
      by (simp add: click_option_fields)
  next
    case (Next rnd)
    from Cons.prems Next have evs: "list_all in_quiz evs" by simp
    obtain s1 where s1: "loadNextQuestion rnd s = Inr s1"
      using loadNextQuestion_total by blast
    then have f: "currentQuestionIndex s1 = currentQuestionIndex s + 1"
      "currentQuestions s1 = currentQuestions s" "languageSelect s1 = languageSelect s"
      "fetched s1 = fetched s"
      "currentQuestionIndex s + 1 < length (currentQuestions s) \<Longrightarrow>
         scoreCard_hidden s1 = scoreCard_hidden s \<and>
         quizContainer_hidden s1 = quizContainer_hidden s"
      by (auto simp: loadNextQuestion_cases split: if_splits)
    from Cons.IH [OF evs, of s1] obtain s' where s': "run E evs s1 = Inr s'"
      "currentQuestionIndex s' = currentQuestionIndex s1 + nexts evs"
      "currentQuestions s' = currentQuestions s1"
      "languageSelect s' = languageSelect s1" "fetched s' = fetched s1"
      "currentQuestionIndex s1 + nexts evs < length (currentQuestions s1) \<longrightarrow>
           scoreCard_hidden s' = scoreCard_hidden s1 \<and>
           quizContainer_hidden s' = quizContainer_hidden s1"
      by blast
    with Next s1 f show ?thesis by simp
  qed (use Cons.prems in simp_all)
qed

lemma quiz_started_fields:
  "currentQuestions (quiz_started qs rnd s) = qs"
  "currentQuestionIndex (quiz_started qs rnd s) = 0"
  "score (quiz_started qs rnd s) = 0"
  "\<not> answeredThisQuestion (quiz_started qs rnd s)"
  "scoreCard_hidden (quiz_started qs rnd s)"
  "\<not> quizContainer_hidden (quiz_started qs rnd s)"
  "languageSelect (quiz_started qs rnd s) = languageSelect s"
  "fetched (quiz_started qs rnd s) = fetched s @ [languageSelect s]"
  "alerts (quiz_started qs rnd s) = alerts s"
  "optionsContainer (quiz_started qs rnd s) =
     map (new_button (qs ! 0)) (sort_random rnd (options (qs ! 0)))"
  by (simp_all add: quiz_started_def)

lemma started_session:
  assumes "startQuiz E out rnd s = Inr s0" and "currentQuestions s0 \<noteq> []"
  obtains js where "parsedQuestions_of E out = Inr (Some (JArr js))"
    "list_all well_formed js" "js \<noteq> []" "s0 = quiz_started (map as_question js) rnd s"
proof (cases rule: startQuiz_cases [of E out rnd s])
  case (failed a)
  with assms have "s0 = back_to_idle [a] s" by simp
  with assms(2) show thesis by (simp add: back_to_idle_def)
next
  case empty
  with assms have "s0 = back_to_idle [] s" by simp
  with assms(2) show thesis by (simp add: back_to_idle_def)
next
  case (started js)
  with assms that show thesis by simp
qed

section \<open>A round: one click, then Next\<close>

lemma awaiting_after_load:
  assumes "length (options q) = 4" and "i < length qs" and "qs ! i = q"
    and "currentQuestions s = qs" and "currentQuestionIndex s = i"
    and "\<not> answeredThisQuestion s"
    and "optionsContainer s = map (new_button q) (sort_random rnd (options q))"
  shows "awaiting_answer s"
  using assms
  by (simp add: awaiting_answer_def length_sort_random list_all_iff new_button_def)

lemma click_awaiting:
  assumes "awaiting_answer s" and "i < 4"
  shows "score (click_option i s) = score s + (if hits i s then 1 else 0)"
    and "answeredThisQuestion (click_option i s)"
proof -
  let ?b = "optionsContainer s ! i"
  from assms have i: "i < length (optionsContainer s)"
    by (simp add: awaiting_answer_def)
  with assms(1) have b: "\<not> disabled ?b"
    "listener ?b = (textContent ?b, answer (currentQuestions s ! currentQuestionIndex s))"
    by (simp_all add: awaiting_answer_def list_all_length)
  from i b have click: "click_option i s =
      selectOption i (textContent ?b) (answer (currentQuestions s ! currentQuestionIndex s)) s"
    by (simp add: click_option_def)
  from assms(1) have "\<not> answeredThisQuestion s"
    by (simp add: awaiting_answer_def)
  then show "score (click_option i s) = score s + (if hits i s then 1 else 0)"
    by (simp add: click selectOption_score hits_def)
  show "answeredThisQuestion (click_option i s)"
    by (simp add: click selectOption_answered)
qed

lemma round_step:
  assumes "awaiting_answer s" and "i < 4"
    and four: "\<forall>q \<in> set (currentQuestions s). length (options q) = 4"
  shows "\<exists>s'. loadNextQuestion rnd (click_option i s) = Inr s' \<and>
           score s' = score s + (if hits i s then 1 else 0) \<and>
           currentQuestionIndex s' = currentQuestionIndex s + 1 \<and>
           currentQuestions s' = currentQuestions s \<and>
           (currentQuestionIndex s + 1 < length (currentQuestions s) \<longrightarrow> awaiting_answer s') \<and>
           (currentQuestionIndex s + 1 = length (currentQuestions s) \<longrightarrow>
              \<not> scoreCard_hidden s' \<and> finalScoreSpan s' = score s' \<and>
              totalQuestionsSpan s' = length (currentQuestions s))"
proof -
  let ?c = "click_option i s"
  have c: "score ?c = score s + (if hits i s then 1 else 0)"
    "currentQuestions ?c = currentQuestions s" "currentQuestionIndex ?c = currentQuestionIndex s"
    using click_awaiting(1) [OF assms(1,2)] by (simp_all add: click_option_fields)
  show ?thesis
  proof (cases "currentQuestionIndex s + 1 < length (currentQuestions s)")
    case True
    let ?q = "currentQuestions s ! (currentQuestionIndex s + 1)"
    from True four have "length (options ?q) = 4" by simp
    with True c show ?thesis
      by (auto simp: loadNextQuestion_cases intro!: awaiting_after_load [where q = ?q and rnd = rnd])
  next
    case False
    with c show ?thesis
      by (simp add: loadNextQuestion_cases)
  qed
qed

lemma rounds_run:
  assumes "awaiting_answer s"
    and "\<forall>q \<in> set (currentQuestions s). length (options q) = 4"
    and "length ps \<le> length (currentQuestions s) - currentQuestionIndex s"
    and "list_all (\<lambda>p. fst p < 4) ps"
  shows "\<exists>s'. run E (rounds ps) s = Inr s' \<and>
           score s' = score s + correct_selections E (rounds ps) s \<and>
           currentQuestionIndex s' = currentQuestionIndex s + length ps \<and>
           currentQuestions s' = currentQuestions s \<and>
           (ps \<noteq> [] \<and> currentQuestionIndex s + length ps = length (currentQuestions s) \<longrightarrow>
              \<not> scoreCard_hidden s' \<and> finalScoreSpan s' = score s' \<and>
              totalQuestionsSpan s' = length (currentQuestions s))"
  using assms
proof (induction ps arbitrary: s)
  case Nil
  then show ?case by simp
next
  case (Cons p ps)
  obtain i rnd where p: "p = (i, rnd)" by (cases p)
  with Cons.prems have i: "i < 4" by simp
  from round_step [OF Cons.prems(1) i Cons.prems(2), of rnd]
  obtain s1 where s1: "loadNextQuestion rnd (click_option i s) = Inr s1"
    "score s1 = score s + (if hits i s then 1 else 0)"
    "currentQuestionIndex s1 = currentQuestionIndex s + 1"
    "currentQuestions s1 = currentQuestions s"
    "currentQuestionIndex s + 1 < length (currentQuestions s) \<longrightarrow> awaiting_answer s1"
    "currentQuestionIndex s + 1 = length (currentQuestions s) \<longrightarrow>
       \<not> scoreCard_hidden s1 \<and> finalScoreSpan s1 = score s1 \<and>
       totalQuestionsSpan s1 = length (currentQuestions s)"
    by blast
  have unfold: "run E (rounds (p # ps)) s = run E (rounds ps) s1"
    "correct_selections E (rounds (p # ps)) s =
       (if hits i s then 1 else 0) + correct_selections E (rounds ps) s1"
    using s1(1) by (simp_all add: p)
  show ?case
  proof (cases "ps = []")
    case True
    with s1 unfold Cons.prems(3) show ?thesis by auto
  next
    case False
    with Cons.prems(3) have more: "currentQuestionIndex s + 1 < length (currentQuestions s)"
      by (cases ps) auto
    with s1 have aw: "awaiting_answer s1" by simp
    have four: "\<forall>q \<in> set (currentQuestions s1). length (options q) = 4"
      using Cons.prems(2) s1(4) by simp
    have len: "length ps \<le> length (currentQuestions s1) - currentQuestionIndex s1"
      using Cons.prems(3) s1(3,4) by simp
    have ok: "list_all (\<lambda>p. fst p < 4) ps"
      using Cons.prems(4) by simp
    from Cons.IH [OF aw four len ok] obtain s' where
      "run E (rounds ps) s1 = Inr s'"
      "score s' = score s1 + correct_selections E (rounds ps) s1"
      "currentQuestionIndex s' = currentQuestionIndex s1 + length ps"
      "currentQuestions s' = currentQuestions s1"
      "ps \<noteq> [] \<and> currentQuestionIndex s1 + length ps = length (currentQuestions s1) \<longrightarrow>
         \<not> scoreCard_hidden s' \<and> finalScoreSpan s' = score s' \<and>
         totalQuestionsSpan s' = length (currentQuestions s1)"
      by blast
    with s1 unfold False show ?thesis by simp
  qed
qed

lemma in_quiz_rounds: "list_all in_quiz (rounds ps)"
  by (induction ps rule: rounds.induct) simp_all

lemma list_all_take: "list_all P xs \<Longrightarrow> list_all P (take j xs)"
  by (auto simp: list_all_iff dest: in_set_takeD)

lemma started_four:
  assumes "list_all well_formed js"
  shows "\<forall>q \<in> set (map as_question js). length (options q) = 4"
  using assms by (auto simp: list_all_iff as_question_well_formed)

lemma started_awaiting:
  assumes "list_all well_formed js" and "js \<noteq> []"
  shows "awaiting_answer (quiz_started (map as_question js) rnd s)"
proof -
  let ?qs = "map as_question js"
  from assms have "length (options (?qs ! 0)) = 4"
    using started_four [OF assms(1)] by (cases js) simp_all
  with assms(2) show ?thesis
    by (intro awaiting_after_load [where q = "?qs ! 0" and rnd = rnd and qs = ?qs and i = 0])
       (simp_all add: quiz_started_fields)
qed

lemma started_bounded: "qs \<noteq> [] \<Longrightarrow> score_bounded (quiz_started qs rnd s)"
  by (cases qs) (simp_all add: score_bounded_def quiz_started_fields)

lemma run_bounded_same:
  assumes "list_all in_quiz evs" and "score_bounded s"
  shows "\<exists>s'. run E evs s = Inr s' \<and> score s' \<le> length (currentQuestions s)"
proof -
  let ?P = "\<lambda>p. score_bounded p \<and> currentQuestions p = currentQuestions s"
  have "\<exists>s'. run E evs s = Inr s' \<and> ?P s'"
  proof (rule run_invariant [where P = ?P])
    fix i p assume "?P p"
    then show "?P (click_option i p)"
      by (simp add: click_option_bounded click_option_fields)
  next
    fix rnd p p' assume "?P p" and "loadNextQuestion rnd p = Inr p'"
    then show "?P p'"
      by (auto simp: loadNextQuestion_bounded) (auto simp: loadNextQuestion_cases split: if_splits)
  qed (use assms in simp_all)
  then show ?thesis
    by (auto simp: score_bounded_def)
qed

section \<open>The sample quiz\<close>

lemma generate_sample:
  "generateQuestionsWithAI sample_engine one_question_reply ''Python'' s =
     (settled ''Python'' [] s,
      [\<lparr>question = ''2+2?'', options = [''1'', ''2'', ''3'', ''4''], answer = ''4''\<rparr>])"
  using generate_all_well_formed [OF parsed_one, of "''Python''" s]
  by (simp add: well_formed_sample as_question_sample)

lemma start_sample:
  "startQuiz sample_engine one_question_reply [] (page_loaded ''Python'') = Inr sample_started"
  using startQuiz_nonempty [of sample_engine one_question_reply "page_loaded ''Python''" _ "[]"]
  by (simp add: generate_sample page_loaded_def quiz_started_def sample_started_def new_button_def)

lemma play_sample:
  "run sample_engine [Select 3, Next []] sample_started = Inr sample_finished"
  by (simp add: sample_started_def sample_finished_def click_option_def selectOption_def
      loadNextQuestion_def showResult_def classList_add_def Let_def)

lemma hits_sample: "correct_selections sample_engine (rounds [(3, [])]) sample_started = 1"
  by (simp add: hits_def sample_started_def loadNextQuestion_cases)

section \<open>The options on display\<close>

lemma option_texts_click: "option_texts (click_option i s) = option_texts s"
  by (simp add: option_texts_def click_option_fields)

lemma option_texts_next:
  assumes "loadNextQuestion rnd s = Inr s'"
    and "currentQuestionIndex s + 1 < length (currentQuestions s)"
  shows "option_texts s' =
           sort_random rnd (options (currentQuestions s ! (currentQuestionIndex s + 1)))"
  using assms
  by (auto simp: option_texts_def loadNextQuestion_cases textContent_new_button simp del: map_map)

lemma option_texts_started:
  "option_texts (quiz_started qs rnd s) = sort_random rnd (options (qs ! 0))"
  by (simp add: option_texts_def quiz_started_fields textContent_new_button del: map_map)

lemma click_option_rendered: "well_rendered s \<Longrightarrow> well_rendered (click_option i s)"
  by (simp add: well_rendered_def click_option_fields option_texts_click)

lemma loadNextQuestion_rendered:
  assumes "well_rendered s" and "loadNextQuestion rnd s = Inr s'"
  shows "well_rendered s'"
proof -
  from assms(2) have f: "currentQuestions s' = currentQuestions s"
    "currentQuestionIndex s' = currentQuestionIndex s + 1"
    by (auto simp: loadNextQuestion_cases split: if_splits)
  show ?thesis
  proof (cases "currentQuestionIndex s + 1 < length (currentQuestions s)")
    case True
    from option_texts_next [OF assms(2) True] assms(1) f True show ?thesis
      by (simp add: well_rendered_def mset_sort_random)
  next
    case False
    with assms(1) f show ?thesis by (simp add: well_rendered_def)
  qed
qed

lemma started_rendered:
  assumes "list_all well_formed js" and "js \<noteq> []"
  shows "well_rendered (quiz_started (map as_question js) rnd s)"
  using assms started_four [OF assms(1)]
  by (simp add: well_rendered_def quiz_started_fields option_texts_started mset_sort_random
      list_all_iff)

lemma startQuiz_request:
  assumes "startQuiz E out rnd p = Inr s0"
  shows "fetched s0 = fetched p @ [languageSelect p]" and "languageSelect s0 = languageSelect p"
proof -
  have "fetched s0 = fetched p @ [languageSelect p] \<and> languageSelect s0 = languageSelect p"
  proof (cases rule: startQuiz_cases [of E out rnd p])
    case (failed a)
    with assms have "s0 = back_to_idle [a] p" by simp
    then show ?thesis by (simp add: back_to_idle_def)
  next
    case empty
    with assms have "s0 = back_to_idle [] p" by simp
    then show ?thesis by (simp add: back_to_idle_def)
  next
    case (started js)
    with assms have "s0 = quiz_started (map as_question js) rnd p" by simp
    then show ?thesis by (simp add: quiz_started_fields)
  qed
  then show "fetched s0 = fetched p @ [languageSelect p]"
    and "languageSelect s0 = languageSelect p"
    by simp_all
qed

section \<open>Claims about the quiz state and the controller\<close>

text \<open>
  C3. Once the question on display is answered, a further call of \<^verbatim>\<open>selectOption\<close>,
  with any button, any selected option and any correct answer, leaves the page as it
  is: the score and the marks on the buttons, which are the outcome recorded for
  the question, stay as the first call left them. The same holds for a further click
  on any option button. (\<^verbatim>\<open>selectOption\<close> returns no value; the outcome is what the
  page shows.)
\<close>

theorem answered_guard_is_idempotent:
  assumes "answeredThisQuestion s"
  shows "selectOption i selectedOption correctAnswer s = s \<and> click_option i s = s"
  using assms by (simp add: selectOption_def click_option_def)

theorem answered_guard_is_idempotent_witness:
  "answeredThisQuestion (click_option 3 sample_started) \<and>
   score (click_option 3 sample_started) = 1 \<and>
   selectOption 0 ''1'' ''1'' (click_option 3 sample_started) = click_option 3 sample_started \<and>
   click_option 0 (click_option 3 sample_started) = click_option 3 sample_started"
proof -
  have h: "answeredThisQuestion (click_option 3 sample_started)"
    by (simp add: click_option_def selectOption_answered sample_started_def)
  have "score (click_option 3 sample_started) = 1"
    by (simp add: click_option_def selectOption_score sample_started_def)
  with answered_guard_is_idempotent [OF h] h show ?thesis by simp
qed

text \<open>
  C4, as amended. In a session freshly started over \<open>n > 0\<close> questions, whatever
  clicks on options come in between, each call of \<^verbatim>\<open>loadNextQuestion\<close> adds one to
  \<^verbatim>\<open>currentQuestionIndex\<close>; each of the first \<open>n - 1\<close> calls loads a question (the score
  card stays hidden) and resets \<^verbatim>\<open>answeredThisQuestion\<close> to false; the \<open>n\<close>-th call, and
  no earlier one, shows the result, and leaves \<^verbatim>\<open>answeredThisQuestion\<close> as it was.
  Below, \<open>evs\<close> are the actions before the call, \<open>nexts evs\<close> of them calls of
  \<^verbatim>\<open>loadNextQuestion\<close>.
\<close>

theorem advance_until_done:
  assumes "startQuiz E out rnd0 s = Inr s0" and "currentQuestions s0 \<noteq> []"
    and "list_all in_quiz evs" and "nexts evs < length (currentQuestions s0)"
  shows "\<exists>s1 s2. run E evs s0 = Inr s1 \<and> loadNextQuestion rnd s1 = Inr s2 \<and>
           currentQuestionIndex s1 = nexts evs \<and>
           currentQuestionIndex s2 = nexts evs + 1 \<and>
           (scoreCard_hidden s2 \<longleftrightarrow> nexts evs + 1 < length (currentQuestions s0)) \<and>
           (quizContainer_hidden s2 \<longleftrightarrow> nexts evs + 1 = length (currentQuestions s0)) \<and>
           (nexts evs + 1 < length (currentQuestions s0) \<longrightarrow> \<not> answeredThisQuestion s2) \<and>
           (nexts evs + 1 = length (currentQuestions s0) \<longrightarrow>
              answeredThisQuestion s2 = answeredThisQuestion s1)"
proof -
  from assms(1,2) obtain js where s0: "s0 = quiz_started (map as_question js) rnd0 s"
    by (rule started_session)
  from run_index [OF assms(3), of E s0] obtain s1 where s1: "run E evs s0 = Inr s1"
    "currentQuestionIndex s1 = currentQuestionIndex s0 + nexts evs"
    "currentQuestions s1 = currentQuestions s0"
    "currentQuestionIndex s0 + nexts evs < length (currentQuestions s0) \<longrightarrow>
           scoreCard_hidden s1 = scoreCard_hidden s0 \<and>
           quizContainer_hidden s1 = quizContainer_hidden s0"
    by blast
  have i0: "currentQuestionIndex s0 = 0" "scoreCard_hidden s0" "\<not> quizContainer_hidden s0"
    by (simp_all add: s0 quiz_started_fields)
  with s1 assms(4) have vis: "scoreCard_hidden s1" "\<not> quizContainer_hidden s1"
    and i1: "currentQuestionIndex s1 = nexts evs"
    by simp_all
  obtain s2 where s2: "loadNextQuestion rnd s1 = Inr s2"
    using loadNextQuestion_total by blast
  with s1 i1 vis assms(4) show ?thesis
    by (auto simp: loadNextQuestion_cases split: if_splits)
qed

theorem advance_until_done_witness:
  "startQuiz sample_engine one_question_reply [] (page_loaded ''Python'') = Inr sample_started \<and>
   currentQuestions sample_started \<noteq> [] \<and>
   list_all in_quiz [Select 3] \<and>
   nexts [Select 3] < length (currentQuestions sample_started) \<and>
   (\<exists>s1 s2. run sample_engine [Select 3] sample_started = Inr s1 \<and>
      loadNextQuestion [] s1 = Inr s2 \<and>
      currentQuestionIndex s1 = nexts [Select 3] \<and>
      currentQuestionIndex s2 = nexts [Select 3] + 1 \<and>
      \<not> scoreCard_hidden s2 \<and> quizContainer_hidden s2 \<and>
      answeredThisQuestion s2 = answeredThisQuestion s1)"
proof -
  have h2: "currentQuestions sample_started \<noteq> []"
    by (simp add: sample_started_def)
  have h3: "list_all in_quiz [Select 3]"
    by simp
  have h4: "nexts [Select 3] < length (currentQuestions sample_started)"
    by (simp add: sample_started_def)
  have n: "nexts [Select 3] + 1 = length (currentQuestions sample_started)"
    by (simp add: sample_started_def)
  from advance_until_done [OF start_sample h2 h3 h4, of "[]"]
  obtain s1 s2 where r: "run sample_engine [Select 3] sample_started = Inr s1"
    "loadNextQuestion [] s1 = Inr s2"
    "currentQuestionIndex s1 = nexts [Select 3]"
    "currentQuestionIndex s2 = nexts [Select 3] + 1"
    "scoreCard_hidden s2 \<longleftrightarrow> nexts [Select 3] + 1 < length (currentQuestions sample_started)"
    "quizContainer_hidden s2 \<longleftrightarrow> nexts [Select 3] + 1 = length (currentQuestions sample_started)"
    "nexts [Select 3] + 1 = length (currentQuestions sample_started) \<longrightarrow>
       answeredThisQuestion s2 = answeredThisQuestion s1"
    by blast
  from r(5,6,7) n have "\<not> scoreCard_hidden s2" "quizContainer_hidden s2"
    "answeredThisQuestion s2 = answeredThisQuestion s1"
    by simp_all
  with r(1-4) have "\<exists>s1 s2. run sample_engine [Select 3] sample_started = Inr s1 \<and>
      loadNextQuestion [] s1 = Inr s2 \<and>
      currentQuestionIndex s1 = nexts [Select 3] \<and>
      currentQuestionIndex s2 = nexts [Select 3] + 1 \<and>
      \<not> scoreCard_hidden s2 \<and> quizContainer_hidden s2 \<and>
      answeredThisQuestion s2 = answeredThisQuestion s1"
    by blast
  with start_sample h2 h3 h4 show ?thesis by blast
qed

text \<open>
  C4 as stated fails on the quiz of one question: after the click on an option and
  the one call of \<^verbatim>\<open>loadNextQuestion\<close>, which shows the result,
  \<^verbatim>\<open>answeredThisQuestion\<close> is still true.
\<close>

theorem last_advance_counterexample:
  "startQuiz sample_engine one_question_reply [] (page_loaded ''Python'') = Inr sample_started \<and>
   length (currentQuestions sample_started) = 1 \<and>
   run sample_engine [Select 3, Next []] sample_started = Inr sample_finished \<and>
   currentQuestionIndex sample_finished = 1 \<and>
   \<not> scoreCard_hidden sample_finished \<and>
   answeredThisQuestion sample_finished"
  using start_sample play_sample
  by (simp add: sample_started_def sample_finished_def)

text \<open>
  C5. In a complete run over the \<open>K\<close> questions of a freshly started session, with one
  click on an option button for each question and then Next, the final score is the
  number of clicks that hit the answer of the question on display, and it is what the
  score card shows. After every prefix of the run the score is at most \<open>K\<close> (it is a
  natural number, so never negative).
\<close>

theorem score_counts_correct_selections:
  assumes "startQuiz E out rnd0 s = Inr s0" and "currentQuestions s0 \<noteq> []"
    and "length ps = length (currentQuestions s0)" and "list_all (\<lambda>p. fst p < 4) ps"
  shows "\<exists>s'. run E (rounds ps) s0 = Inr s' \<and>
           score s' = correct_selections E (rounds ps) s0 \<and>
           finalScoreSpan s' = score s' \<and> \<not> scoreCard_hidden s' \<and>
           (\<forall>j. \<exists>sj. run E (take j (rounds ps)) s0 = Inr sj \<and>
                  score sj \<le> length (currentQuestions s0))"
proof -
  from assms(1,2) obtain js where js: "list_all well_formed js" "js \<noteq> []"
    and s0: "s0 = quiz_started (map as_question js) rnd0 s"
    by (rule started_session)
  have aw: "awaiting_answer s0"
    unfolding s0 using js by (rule started_awaiting)
  have four: "\<forall>q \<in> set (currentQuestions s0). length (options q) = 4"
    using started_four [OF js(1)] by (simp add: s0 quiz_started_fields)
  have zero: "currentQuestionIndex s0 = 0" "score s0 = 0"
    by (simp_all add: s0 quiz_started_fields)
  have len: "length ps \<le> length (currentQuestions s0) - currentQuestionIndex s0"
    using assms(3) zero by simp
  from assms(2,3) have ps: "ps \<noteq> []" by auto
  from rounds_run [OF aw four len assms(4), of E] obtain s' where
    s': "run E (rounds ps) s0 = Inr s'"
    "score s' = score s0 + correct_selections E (rounds ps) s0"
    "ps \<noteq> [] \<and> currentQuestionIndex s0 + length ps = length (currentQuestions s0) \<longrightarrow>
       \<not> scoreCard_hidden s' \<and> finalScoreSpan s' = score s' \<and>
       totalQuestionsSpan s' = length (currentQuestions s0)"
    by blast
  have bounded: "score_bounded s0"
    unfolding s0 using js(2) by (intro started_bounded) simp
  have every: "\<exists>sj. run E (take j (rounds ps)) s0 = Inr sj \<and>
      score sj \<le> length (currentQuestions s0)" for j
    using list_all_take [OF in_quiz_rounds] bounded by (rule run_bounded_same)
  from s' zero ps assms(3) every show ?thesis by auto
qed

theorem score_counts_correct_selections_witness:
  "startQuiz sample_engine one_question_reply [] (page_loaded ''Python'') = Inr sample_started \<and>
   currentQuestions sample_started \<noteq> [] \<and>
   length [(3::nat, [] :: nat list)] = length (currentQuestions sample_started) \<and>
   list_all (\<lambda>p. fst p < 4) [(3::nat, [] :: nat list)] \<and>
   (\<exists>s'. run sample_engine (rounds [(3, [])]) sample_started = Inr s' \<and>
         score s' = correct_selections sample_engine (rounds [(3, [])]) sample_started \<and>
         finalScoreSpan s' = score s' \<and> \<not> scoreCard_hidden s' \<and>
         (\<forall>j. \<exists>sj. run sample_engine (take j (rounds [(3, [])])) sample_started = Inr sj \<and>
                score sj \<le> length (currentQuestions sample_started))) \<and>
   correct_selections sample_engine (rounds [(3, [])]) sample_started = 1"
proof -
  have h1: "startQuiz sample_engine one_question_reply [] (page_loaded ''Python'') =
      Inr sample_started"
    by (rule start_sample)
  have h2: "currentQuestions sample_started \<noteq> []"
    by (simp add: sample_started_def)
  have h3: "length [(3::nat, [] :: nat list)] = length (currentQuestions sample_started)"
    by (simp add: sample_started_def)
  have h4: "list_all (\<lambda>p. fst p < 4) [(3::nat, [] :: nat list)]"
    by simp
  from score_counts_correct_selections [OF h1 h2 h3 h4] h1 h2 h3 h4 hits_sample
  show ?thesis by blast
qed

text \<open>
  C6, as amended. When the provider fails, \<^verbatim>\<open>startQuiz\<close> returns to the language
  selection with the quiz and the score card hidden, starts no quiz (the index, the
  score and the options on the page stay as they were) and exactly one notice has
  been shown. When the provider returns the empty array, \<^verbatim>\<open>startQuiz\<close> returns to the
  language selection in the same way, and no notice has been shown.
\<close>

theorem failed_or_empty_start_returns_to_idle:
  "(provider_failure E out \<longrightarrow>
      (\<exists>a. startQuiz E out rnd s = Inr (back_to_idle [a] s))) \<and>
   (parsedQuestions_of E out = Inr (Some (JArr [])) \<longrightarrow>
      startQuiz E out rnd s = Inr (back_to_idle [] s))"
proof (intro conjI impI)
  assume "provider_failure E out"
  from generate_failure [OF this, of "languageSelect s" s] obtain a where
    "generateQuestionsWithAI E out (languageSelect s) s = (settled (languageSelect s) [a] s, [])"
    by blast
  then have "startQuiz E out rnd s = Inr (back_to_idle [a] s)"
    by (rule startQuiz_empty)
  then show "\<exists>a. startQuiz E out rnd s = Inr (back_to_idle [a] s)" ..
next
  assume "parsedQuestions_of E out = Inr (Some (JArr []))"
  then have "generateQuestionsWithAI E out (languageSelect s) s =
      (settled (languageSelect s) [] s, map as_question [])"
    by (rule generate_all_well_formed) simp
  then show "startQuiz E out rnd s = Inr (back_to_idle [] s)"
    by (intro startQuiz_empty) simp
qed

theorem failed_or_empty_start_returns_to_idle_witness:
  "provider_failure sample_engine server_error_reply \<and>
   (\<exists>a. startQuiz sample_engine server_error_reply [] (page_loaded ''Python'') =
          Inr (back_to_idle [a] (page_loaded ''Python''))) \<and>
   parsedQuestions_of sample_engine empty_reply = Inr (Some (JArr [])) \<and>
   startQuiz sample_engine empty_reply [] (page_loaded ''Python'') =
     Inr (back_to_idle [] (page_loaded ''Python''))"
proof -
  have h: "provider_failure sample_engine server_error_reply"
    by (simp add: provider_failure_def parsedQuestions_of_def server_error_reply_def)
  from failed_or_empty_start_returns_to_idle
    [of sample_engine server_error_reply "[]" "page_loaded ''Python''"] h
  have 1: "\<exists>a. startQuiz sample_engine server_error_reply [] (page_loaded ''Python'') =
          Inr (back_to_idle [a] (page_loaded ''Python''))"
    by blast
  from failed_or_empty_start_returns_to_idle
    [of sample_engine empty_reply "[]" "page_loaded ''Python''"] parsed_empty
  have 2: "startQuiz sample_engine empty_reply [] (page_loaded ''Python'') =
     Inr (back_to_idle [] (page_loaded ''Python''))"
    by blast
  from h 1 parsed_empty 2 show ?thesis by blast
qed

text \<open>
  C6 as stated fails on a response whose text is the empty array: the provider
  result is empty, the page returns to the language selection, and no notice at all
  has been shown.
\<close>

theorem empty_result_counterexample:
  "parsedQuestions_of sample_engine empty_reply = Inr (Some (JArr [])) \<and>
   startQuiz sample_engine empty_reply [] (page_loaded ''Python'') =
     Inr (back_to_idle [] (page_loaded ''Python'')) \<and>
   \<not> languageSelection_hidden (back_to_idle [] (page_loaded ''Python'')) \<and>
   alerts (back_to_idle [] (page_loaded ''Python'')) = []"
proof -
  have "generateQuestionsWithAI sample_engine empty_reply
      (languageSelect (page_loaded ''Python'')) (page_loaded ''Python'') =
      (settled (languageSelect (page_loaded ''Python'')) [] (page_loaded ''Python''),
       map as_question [])"
    using parsed_empty by (rule generate_all_well_formed) simp
  then have "startQuiz sample_engine empty_reply [] (page_loaded ''Python'') =
      Inr (back_to_idle [] (page_loaded ''Python''))"
    by (intro startQuiz_empty) simp
  with parsed_empty show ?thesis
    by (simp add: back_to_idle_def page_loaded_def)
qed

text \<open>
  C8. When the provider returns a non-empty array of well-formed questions,
  \<^verbatim>\<open>startQuiz\<close>, and \<^verbatim>\<open>retakeQuiz\<close> which is the same, leave a session over exactly
  these questions with \<^verbatim>\<open>currentQuestionIndex\<close> 0, \<^verbatim>\<open>score\<close> 0 and
  \<^verbatim>\<open>answeredThisQuestion\<close> false, whatever the page was before. Each sends one new
  request, for the language selected; when the page was reached from an earlier
  start by clicks on options and on Next, that is the language of the earlier
  request.
\<close>

theorem start_or_retake_is_fresh_session:
  assumes "parsedQuestions_of E out = Inr (Some (JArr js))"
    and "list_all well_formed js" and "js \<noteq> []"
  shows "\<exists>s'. startQuiz E out rnd s = Inr s' \<and> retakeQuiz E out rnd s = Inr s' \<and>
           currentQuestions s' = map as_question js \<and>
           currentQuestionIndex s' = 0 \<and> score s' = 0 \<and> \<not> answeredThisQuestion s' \<and>
           fetched s' = fetched s @ [languageSelect s] \<and>
           (\<forall>out0 rnd0 p s0 evs.
              startQuiz E out0 rnd0 p = Inr s0 \<and> list_all in_quiz evs \<and>
              run E evs s0 = Inr s \<longrightarrow>
              fetched s' = fetched p @ [languageSelect p, languageSelect p])"
proof -
  let ?s' = "quiz_started (map as_question js) rnd s"
  from assms(1,2) have "generateQuestionsWithAI E out (languageSelect s) s =
      (settled (languageSelect s) [] s, map as_question js)"
    by (rule generate_all_well_formed)
  with assms(3) have start: "startQuiz E out rnd s = Inr ?s'"
    by (intro startQuiz_nonempty) simp_all
  have same: "fetched ?s' = fetched p @ [languageSelect p, languageSelect p]"
    if prior: "startQuiz E out0 rnd0 p = Inr s0" "list_all in_quiz evs" "run E evs s0 = Inr s"
    for out0 rnd0 p s0 evs
  proof -
    from run_index [OF prior(2), of E s0] prior(3)
    have "languageSelect s = languageSelect s0" "fetched s = fetched s0"
      by auto
    with startQuiz_request [OF prior(1)] show ?thesis
      by (simp add: quiz_started_fields)
  qed
  have "startQuiz E out rnd s = Inr ?s' \<and> retakeQuiz E out rnd s = Inr ?s' \<and>
        currentQuestions ?s' = map as_question js \<and>
        currentQuestionIndex ?s' = 0 \<and> score ?s' = 0 \<and> \<not> answeredThisQuestion ?s' \<and>
        fetched ?s' = fetched s @ [languageSelect s]"
    using start by (simp add: retakeQuiz_def quiz_started_fields)
  with same show ?thesis by blast
qed

theorem start_or_retake_is_fresh_session_witness:
  "parsedQuestions_of sample_engine one_question_reply = Inr (Some (JArr [sample_question])) \<and>
   list_all well_formed [sample_question] \<and> [sample_question] \<noteq> [] \<and>
   score sample_finished = 1 \<and>
   (\<exists>s'. retakeQuiz sample_engine one_question_reply [] sample_finished = Inr s' \<and>
      currentQuestions s' = map as_question [sample_question] \<and>
      currentQuestionIndex s' = 0 \<and> score s' = 0 \<and> \<not> answeredThisQuestion s' \<and>
      fetched s' = [''Python'', ''Python''])"
proof -
  have h2: "list_all well_formed [sample_question]"
    by (simp add: well_formed_sample)
  have h3: "[sample_question] \<noteq> []"
    by simp
  have f: "fetched sample_finished @ [languageSelect sample_finished] = [''Python'', ''Python'']"
    "score sample_finished = 1"
    by (simp_all add: sample_finished_def)
  from start_or_retake_is_fresh_session [OF parsed_one h2 h3, of "[]" sample_finished]
  obtain s' where r: "retakeQuiz sample_engine one_question_reply [] sample_finished = Inr s'"
    "currentQuestions s' = map as_question [sample_question]"
    "currentQuestionIndex s' = 0" "score s' = 0" "\<not> answeredThisQuestion s'"
    "fetched s' = fetched sample_finished @ [languageSelect sample_finished]"
    by blast
  with f have "\<exists>s'. retakeQuiz sample_engine one_question_reply [] sample_finished = Inr s' \<and>
      currentQuestions s' = map as_question [sample_question] \<and>
      currentQuestionIndex s' = 0 \<and> score s' = 0 \<and> \<not> answeredThisQuestion s' \<and>
      fetched s' = [''Python'', ''Python'']"
    by auto
  with parsed_one h2 h3 f show ?thesis by blast
qed

text \<open>
  C9. Whenever a question is on display in a session freshly started and driven by
  clicks on options and on Next, the texts of the option buttons are the options of
  that question in some order, each as often as the question has it, and there are
  four of them. The order is chosen anew at each load: the texts after Next are the
  options of the next question in the order selected by the \<open>rnd\<close> of that call.
\<close>

theorem rendered_options_are_permutation:
  assumes "startQuiz E out rnd0 s = Inr s0" and "currentQuestions s0 \<noteq> []"
    and "list_all in_quiz evs" and "run E evs s0 = Inr s1"
    and "currentQuestionIndex s1 < length (currentQuestions s1)"
  shows "mset (option_texts s1) =
           mset (options (currentQuestions s1 ! currentQuestionIndex s1)) \<and>
         length (option_texts s1) = 4 \<and>
         (\<forall>rnd. currentQuestionIndex s1 + 1 < length (currentQuestions s1) \<longrightarrow>
            (\<exists>s2. loadNextQuestion rnd s1 = Inr s2 \<and>
               option_texts s2 =
                 sort_random rnd
                   (options (currentQuestions s1 ! (currentQuestionIndex s1 + 1)))))"
proof -
  from assms(1,2) obtain js where js: "list_all well_formed js" "js \<noteq> []"
    and s0: "s0 = quiz_started (map as_question js) rnd0 s"
    by (rule started_session)
  have "well_rendered s0"
    unfolding s0 using js by (rule started_rendered)
  with click_option_rendered loadNextQuestion_rendered assms(3)
  have "\<exists>s'. run E evs s0 = Inr s' \<and> well_rendered s'"
    by (rule run_invariant [where P = well_rendered])
  with assms(4) have r: "well_rendered s1" by simp
  let ?q = "currentQuestions s1 ! currentQuestionIndex s1"
  from r assms(5) have perm: "mset (option_texts s1) = mset (options ?q)"
    and four: "length (options ?q) = 4"
    by (simp_all add: well_rendered_def list_all_length)
  from perm have "length (option_texts s1) = length (options ?q)"
    by (rule mset_eq_length)
  with four have len: "length (option_texts s1) = 4" by simp
  have fresh: "\<exists>s2. loadNextQuestion rnd s1 = Inr s2 \<and>
      option_texts s2 =
        sort_random rnd (options (currentQuestions s1 ! (currentQuestionIndex s1 + 1)))"
    if "currentQuestionIndex s1 + 1 < length (currentQuestions s1)" for rnd
  proof -
    obtain s2 where s2: "loadNextQuestion rnd s1 = Inr s2"
      using loadNextQuestion_total by blast
    from option_texts_next [OF s2 that] s2 show ?thesis by blast
  qed
  from perm len fresh show ?thesis by blast
qed

theorem rendered_options_are_permutation_witness:
  "startQuiz sample_engine one_question_reply [1, 0, 1] (page_loaded ''Python'') =
     Inr (quiz_started (map as_question [sample_question]) [1, 0, 1] (page_loaded ''Python'')) \<and>
   option_texts (quiz_started (map as_question [sample_question]) [1, 0, 1]
     (page_loaded ''Python'')) = [''2'', ''1'', ''4'', ''3''] \<and>
   mset [''2'', ''1'', ''4'', ''3''] = mset [''1'', ''2'', ''3'', ''4'']"
proof -
  let ?s0 = "quiz_started (map as_question [sample_question]) [1, 0, 1] (page_loaded ''Python'')"
  have h1: "startQuiz sample_engine one_question_reply [1, 0, 1] (page_loaded ''Python'') = Inr ?s0"
    by (intro startQuiz_nonempty)
       (simp_all add: generate_sample page_loaded_def as_question_sample)
  have h2: "currentQuestions ?s0 \<noteq> []"
    by (simp add: quiz_started_fields)
  have h3: "list_all in_quiz []"
    by simp
  have h4: "run sample_engine [] ?s0 = Inr ?s0"
    by simp
  have h5: "currentQuestionIndex ?s0 < length (currentQuestions ?s0)"
    by (simp add: quiz_started_fields)
  have texts: "option_texts ?s0 = [''2'', ''1'', ''4'', ''3'']"
    by (simp add: option_texts_started as_question_sample)
  have q: "options (currentQuestions ?s0 ! currentQuestionIndex ?s0) = [''1'', ''2'', ''3'', ''4'']"
    by (simp add: quiz_started_fields as_question_sample)
  from rendered_options_are_permutation [OF h1 h2 h3 h4 h5] texts q h1
  show ?thesis by simp
qed

end
